theory Spec2Isabelle
  imports Main
begin

section \<open>Text\<close>

text \<open>
  Python's \<open>str\<close> is modelled as \<open>string\<close>, a list of 8-bit characters read as the
  code points 0..255.  On that range \<open>str.isspace\<close> holds for TAB, LF, VT, FF, CR, the
  four separators FS, GS, RS, US, the blank, NEL (133) and the no-break space (160), and
  \<open>str.lower\<close> moves \<open>A..Z\<close> and the capital letters 192..222 (but not the
  multiplication sign 215) up by 32.
\<close>

definition isspace :: "char \<Rightarrow> bool" where
  "isspace c = (of_char c \<in> set [9, 10, 11, 12, 13, 28, 29, 30, 31, 32, 133, 160 :: nat])"

definition lower_char :: "char \<Rightarrow> char" where
  "lower_char c = (let n = of_char c :: nat in
     if (65 \<le> n \<and> n \<le> 90) \<or> (192 \<le> n \<and> n \<le> 222 \<and> n \<noteq> 215)
     then char_of (n + 32) else c)"

definition lower :: "string \<Rightarrow> string" where
  "lower s = map lower_char s"

definition lstrip :: "string \<Rightarrow> string" where
  "lstrip s = dropWhile isspace s"

definition rstrip :: "string \<Rightarrow> string" where
  "rstrip s = rev (dropWhile isspace (rev s))"

definition strip :: "string \<Rightarrow> string" where
  "strip s = rstrip (lstrip s)"

definition startswith :: "string \<Rightarrow> string \<Rightarrow> bool" where
  "startswith s p = (take (length p) s = p)"

definition endswith :: "string \<Rightarrow> string \<Rightarrow> bool" where
  "endswith s p = (length p \<le> length s \<and> drop (length s - length p) s = p)"

text \<open>\<open>s.split(sep)\<close> for a one-character separator: never the empty list.\<close>

fun split_on :: "char \<Rightarrow> string \<Rightarrow> string list" where
  "split_on sep [] = [[]]"
| "split_on sep (c # cs) =
     (if c = sep then [] # split_on sep cs
      else (let r = split_on sep cs in (c # hd r) # tl r))"

section \<open>Errors\<close>

text \<open>
  The exceptions of the pipeline.  \<open>ValueError\<close> is what the extractor and the field
  validators raise, \<open>JSONDecodeError\<close> what \<open>json.loads\<close> raises, \<open>ValidationError\<close>
  what pydantic raises.  \<open>LLMGenerationError\<close> carries its \<open>__cause__\<close> (set by
  \<open>raise ... from exc\<close>); \<open>LLMQuotaExceededError\<close> and \<open>LLMAuthError\<close> are its
  subclasses.  \<open>RequestException\<close> stands for whatever \<open>requests.post\<close> raised,
  \<open>LookupOrTypeError\<close> for the KeyError, IndexError or TypeError of a failed subscript,
  \<open>RuntimeError\<close> for the missing API key.
\<close>

datatype error =
    ValueError
  | JSONDecodeError
  | ValidationError
  | LLMQuotaExceededError
  | LLMAuthError
  | LLMGenerationError "error option"
  | RequestException
  | LookupOrTypeError
  | RuntimeError

section \<open>Generic values\<close>

text \<open>
  What \<open>json.loads\<close> returns: \<open>None\<close>, a bool, a number, a \<open>str\<close>, a list or a dict.
  Numbers are left abstract (\<open>'n\<close>): the pipeline only passes them through.  A dict is
  the list of its items in insertion order; the keys of a Python dict are distinct.
\<close>

datatype 'n json =
    JNull
  | JBool bool
  | JNum 'n
  | JStr string
  | JList "'n json list"
  | JDict "(string \<times> 'n json) list"

type_synonym 'n dict = "(string \<times> 'n json) list"

abbreviation dict_get :: "(string \<times> 'v) list \<Rightarrow> string \<Rightarrow> 'v option" where
  "dict_get d k \<equiv> map_of d k"

text \<open>\<open>d[k] = v\<close>: an existing key keeps its place, a new one goes last.\<close>

fun dict_set :: "(string \<times> 'v) list \<Rightarrow> string \<Rightarrow> 'v \<Rightarrow> (string \<times> 'v) list" where
  "dict_set [] k v = [(k, v)]"
| "dict_set (p # ps) k v = (if fst p = k then (k, v) # ps else p # dict_set ps k v)"

definition dict_setdefault :: "(string \<times> 'v) list \<Rightarrow> string \<Rightarrow> 'v \<Rightarrow> (string \<times> 'v) list" where
  "dict_setdefault d k v = (case dict_get d k of None \<Rightarrow> d @ [(k, v)] | Some _ \<Rightarrow> d)"

text \<open>\<open>d.pop(k, None)\<close>, the popped value dropped.\<close>

fun dict_pop :: "(string \<times> 'v) list \<Rightarrow> string \<Rightarrow> (string \<times> 'v) list" where
  "dict_pop [] k = []"
| "dict_pop (p # ps) k = (if fst p = k then ps else p # dict_pop ps k)"

fun is_dict :: "'n json \<Rightarrow> bool" where
  "is_dict (JDict _) = True"
| "is_dict _ = False"

fun dict_items :: "'n json \<Rightarrow> 'n dict" where
  "dict_items (JDict kvs) = kvs"
| "dict_items _ = []"

text \<open>The invariant of the data: at every level the keys of a dict are distinct.\<close>

fun wf_json :: "'n json \<Rightarrow> bool" where
  "wf_json (JDict kvs) = (distinct (map fst kvs) \<and> list_all (\<lambda>(k, v). wf_json v) kvs)"
| "wf_json (JList xs) = list_all wf_json xs"
| "wf_json _ = True"

text \<open>
  A position in a tree: the keys and indices of the subscripts that lead to it.
\<close>

datatype step = Key string | Index nat

fun subtree :: "'n json \<Rightarrow> step list \<Rightarrow> 'n json option" where
  "subtree v [] = Some v"
| "subtree (JDict kvs) (Key k # p) =
     (case dict_get kvs k of None \<Rightarrow> None | Some v \<Rightarrow> subtree v p)"
| "subtree (JList xs) (Index i # p) =
     (if i < length xs then subtree (xs ! i) p else None)"
| "subtree _ _ = None"

section \<open>llm_engine.py: payload extraction and normalization\<close>

definition MISSING_ALIASES :: "string list" where
  "MISSING_ALIASES =
     ['''', ''n/a'', ''na'', ''null'', ''none'', ''unknown'', ''not provided'', ''missing'']"

text \<open>
  \<open>re.search(r"\{.*\}", candidate, flags=re.DOTALL)\<close>.  \<open>match_to_last_close\<close> is the
  greedy \<open>.*\}\<close> anchored where it stands: the longest prefix that ends in a closing
  brace.  \<open>search_braces\<close> tries the start positions from the left, as \<open>re.search\<close> does.
\<close>

fun match_to_last_close :: "string \<Rightarrow> string option" where
  "match_to_last_close [] = None"
| "match_to_last_close (c # cs) =
     (case match_to_last_close cs of
        Some m \<Rightarrow> Some (c # m)
      | None \<Rightarrow> if c = CHR ''}'' then Some [c] else None)"

fun search_braces :: "string \<Rightarrow> string option" where
  "search_braces [] = None"
| "search_braces (c # cs) =
     (if c = CHR ''{'' then
        (case match_to_last_close cs of
           Some m \<Rightarrow> Some (c # m)
         | None \<Rightarrow> search_braces cs)
      else search_braces cs)"

definition extract_json_payload :: "string \<Rightarrow> error + string" where
  "extract_json_payload raw_text =
     (let candidate = strip raw_text in
      if startswith candidate ''{'' \<and> endswith candidate ''}'' then Inr candidate
      else (case search_braces candidate of
              Some fenced_match \<Rightarrow> Inr fenced_match
            | None \<Rightarrow> Inl ValueError))"

fun normalize_missing_markers :: "'n json \<Rightarrow> 'n json" where
  "normalize_missing_markers (JDict kvs) =
     JDict (map (\<lambda>(k, v). (k, normalize_missing_markers v)) kvs)"
| "normalize_missing_markers (JList xs) = JList (map normalize_missing_markers xs)"
| "normalize_missing_markers JNull = JStr ''Not Available''"
| "normalize_missing_markers (JStr s) =
     (let cleaned = strip s in
      if lower cleaned \<in> set MISSING_ALIASES then JStr ''Not Available'' else JStr cleaned)"
| "normalize_missing_markers v = v"

section \<open>llm_engine.py: coercion to the schema shape\<close>

definition EXPECTED_TOP_LEVEL_KEYS :: "string list" where
  "EXPECTED_TOP_LEVEL_KEYS =
     [''Property_Issue_Summary'', ''Area_Wise_Observations'', ''Probable_Root_Cause'',
      ''Severity_Assessment'', ''Recommended_Actions'', ''Risk_Implications'',
      ''Additional_Notes'', ''Missing_or_Unclear_Information'']"

text \<open>The value of \<open>_build_default_structure()["Severity_Assessment"]\<close>.\<close>

definition default_severity :: "'n dict" where
  "default_severity =
     [(''overall_severity'', JStr ''Not Available''),
      (''reasoning'', JStr ''Not Available''),
      (''Confidence_Level'', JStr ''Not Available''),
      (''Confidence_Reasoning'', JStr ''Not Available'')]"

definition build_default_structure :: "'n dict" where
  "build_default_structure =
     [(''Property_Issue_Summary'', JStr ''Not Available''),
      (''Area_Wise_Observations'', JDict []),
      (''Probable_Root_Cause'', JStr ''Not Available''),
      (''Severity_Assessment'', JDict default_severity),
      (''Recommended_Actions'', JStr ''Not Available''),
      (''Risk_Implications'', JStr ''Not Available''),
      (''Additional_Notes'', JStr ''Not Available''),
      (''Missing_or_Unclear_Information'', JList [JStr ''Not Available''])]"

text \<open>
  Lines 97-99: the keys of \<open>EXPECTED_TOP_LEVEL_KEYS\<close> that the normalized input has
  overwrite the defaults.  The source iterates a set; each step writes one key of its
  own, so the list stands for any order.
\<close>

definition copy_expected_keys :: "'n dict \<Rightarrow> 'n dict \<Rightarrow> 'n dict" where
  "copy_expected_keys normalized completed =
     fold (\<lambda>key c. case dict_get normalized key of
                      Some v \<Rightarrow> dict_set c key v
                    | None \<Rightarrow> c)
          EXPECTED_TOP_LEVEL_KEYS completed"

text \<open>Lines 101-102.\<close>

definition force_area_mapping :: "'n dict \<Rightarrow> 'n dict" where
  "force_area_mapping completed =
     (case dict_get completed ''Area_Wise_Observations'' of
        Some (JDict areas) \<Rightarrow> completed
      | _ \<Rightarrow> dict_set completed ''Area_Wise_Observations'' (JDict []))"

text \<open>Lines 104-112.\<close>

definition coerce_severity :: "'n dict \<Rightarrow> 'n dict" where
  "coerce_severity completed =
     (case dict_get completed ''Severity_Assessment'' of
        Some (JDict severity) \<Rightarrow>
          (let s1 = dict_setdefault severity ''overall_severity'' (JStr ''Not Available'');
               s2 = dict_setdefault s1 ''reasoning'' (JStr ''Not Available'');
               s3 = dict_setdefault s2 ''Confidence_Level'' (JStr ''Not Available'');
               s4 = dict_setdefault s3 ''Confidence_Reasoning'' (JStr ''Not Available'')
           in dict_set completed ''Severity_Assessment'' (normalize_missing_markers (JDict s4)))
      | _ \<Rightarrow> dict_set completed ''Severity_Assessment'' (JDict default_severity))"

text \<open>Lines 114-117.\<close>

definition coerce_missing_info :: "'n dict \<Rightarrow> 'n dict" where
  "coerce_missing_info completed =
     (case dict_get completed ''Missing_or_Unclear_Information'' of
        Some (JList items) \<Rightarrow>
          (if items = [] then
             dict_set completed ''Missing_or_Unclear_Information'' (JList [JStr ''Not Available''])
           else completed)
      | _ \<Rightarrow> dict_set completed ''Missing_or_Unclear_Information'' (JList [JStr ''Not Available'']))"

text \<open>
  Lines 120-139: the loop over a snapshot of the areas.  \<open>coerce_area_step\<close> is one
  round of it, on the mapping \<open>completed["Area_Wise_Observations"]\<close>.
\<close>

definition sentinel_area :: "'n dict" where
  "sentinel_area =
     [(''inspection_observation'', JStr ''Not Available''),
      (''thermal_observation'', JStr ''Not Available''),
      (''merged_finding'', JStr ''Not Available''),
      (''dampness_type'', JStr ''Not Available''),
      (''inspection_evidence_ref'', JStr ''Not Available''),
      (''thermal_evidence_ref'', JStr ''Not Available''),
      (''conflict_note'', JStr ''Not Available'')]"

definition backfill_area :: "'n dict \<Rightarrow> 'n dict" where
  "backfill_area area_data =
     (let a1 = dict_setdefault area_data ''inspection_observation'' (JStr ''Not Available'');
          a2 = dict_setdefault a1 ''thermal_observation'' (JStr ''Not Available'');
          a3 = dict_setdefault a2 ''merged_finding'' (JStr ''Not Available'');
          a4 = dict_setdefault a3 ''dampness_type'' (JStr ''Not Available'');
          a5 = dict_setdefault a4 ''inspection_evidence_ref'' (JStr ''Not Available'');
          a6 = dict_setdefault a5 ''thermal_evidence_ref'' (JStr ''Not Available'')
      in dict_setdefault a6 ''conflict_note'' (JStr ''Not Available''))"

definition coerce_area_value :: "'n json \<Rightarrow> 'n json" where
  "coerce_area_value area_data =
     (case area_data of
        JDict fields \<Rightarrow> normalize_missing_markers (JDict (backfill_area fields))
      | _ \<Rightarrow> JDict sentinel_area)"

definition coerce_area_step :: "string \<times> 'n json \<Rightarrow> 'n dict \<Rightarrow> 'n dict" where
  "coerce_area_step entry areas = dict_set areas (fst entry) (coerce_area_value (snd entry))"

definition coerce_areas :: "'n dict \<Rightarrow> 'n dict" where
  "coerce_areas areas = fold coerce_area_step areas areas"

text \<open>Lines 142-150.\<close>

definition is_placeholder_general :: "'n dict \<Rightarrow> bool" where
  "is_placeholder_general general =
     (dict_get general ''inspection_observation'' = Some (JStr ''Not Available'')
      \<and> dict_get general ''thermal_observation'' = Some (JStr ''Not Available'')
      \<and> dict_get general ''merged_finding'' = Some (JStr ''Not Available''))"

definition drop_placeholder_general :: "'n dict \<Rightarrow> 'n dict" where
  "drop_placeholder_general areas =
     (case dict_get areas ''General'' of
        Some (JDict general) \<Rightarrow>
          (if is_placeholder_general general then dict_pop areas ''General'' else areas)
      | _ \<Rightarrow> areas)"

text \<open>
  An update of the nested mapping \<open>completed["Area_Wise_Observations"]\<close> in place.
\<close>

definition update_areas :: "('n dict \<Rightarrow> 'n dict) \<Rightarrow> 'n dict \<Rightarrow> 'n dict" where
  "update_areas f completed =
     dict_set completed ''Area_Wise_Observations''
       (JDict (f (case dict_get completed ''Area_Wise_Observations'' of
                    Some v \<Rightarrow> dict_items v
                  | None \<Rightarrow> [])))"

text \<open>
  \<open>_coerce_to_schema_shape(data)\<close> for a dict \<open>data\<close>, given by its items.
\<close>

definition coerce_to_schema_shape :: "'n dict \<Rightarrow> 'n dict" where
  "coerce_to_schema_shape data =
     (let normalized = dict_items (normalize_missing_markers (JDict data));
          completed = copy_expected_keys normalized build_default_structure;
          completed = force_area_mapping completed;
          completed = coerce_severity completed;
          completed = coerce_missing_info completed;
          completed = update_areas coerce_areas completed
      in update_areas drop_placeholder_general completed)"

section \<open>schemas.py: the strict validator\<close>

record AreaObservation =
  inspection_observation :: string
  thermal_observation :: string
  merged_finding :: string
  dampness_type :: string
  inspection_evidence_ref :: string
  thermal_evidence_ref :: string
  conflict_note :: string

record SeverityAssessment =
  overall_severity :: string
  reasoning :: string
  Confidence_Level :: string
  Confidence_Reasoning :: string

record DDRReport =
  Property_Issue_Summary :: string
  Area_Wise_Observations :: "(string \<times> AreaObservation) list"
  Probable_Root_Cause :: string
  Severity_Assessment :: SeverityAssessment
  Recommended_Actions :: string
  Risk_Implications :: string
  Additional_Notes :: string
  Missing_or_Unclear_Information :: "string list"

definition and_then :: "error + 'a \<Rightarrow> ('a \<Rightarrow> error + 'b) \<Rightarrow> error + 'b" where
  "and_then r f = (case r of Inl e \<Rightarrow> Inl e | Inr x \<Rightarrow> f x)"

definition MISSING_VALUE_ALIASES :: "string list" where
  "MISSING_VALUE_ALIASES =
     [''n/a'', ''na'', ''none'', ''null'', ''unknown'', ''not provided'', ''missing'']"

text \<open>
  \<open>_validate_non_empty(value, field_name)\<close>; the field name only goes into the message.
  It is the body of \<open>validate_strings\<close> and of \<open>validate_core_strings\<close>.
\<close>

definition validate_non_empty :: "string \<Rightarrow> error + string" where
  "validate_non_empty value =
     (let cleaned = strip value in
      if cleaned = [] then Inl ValueError
      else if lower cleaned \<in> set MISSING_VALUE_ALIASES then Inl ValueError
      else Inr cleaned)"

definition dampness_allowed :: "string list" where
  "dampness_allowed =
     [''rising damp'', ''rising damp (probable)'',
      ''penetrating damp'', ''penetrating damp (probable)'',
      ''plumbing leakage damp'', ''plumbing leakage damp (probable)'',
      ''not available'']"

definition validate_dampness_type :: "string \<Rightarrow> error + string" where
  "validate_dampness_type value =
     (let parts = map (\<lambda>part. lower (strip part)) (split_on CHR '','' value) in
      if parts = [] then Inl ValueError
      else if list_ex (\<lambda>part. part \<notin> set dampness_allowed) parts then Inl ValueError
      else Inr value)"

definition validate_overall_severity :: "string \<Rightarrow> error + string" where
  "validate_overall_severity value =
     (if lower (strip value) \<notin> set [''low'', ''low to moderate'', ''moderate'',
                                       ''moderate to high'', ''high'', ''not available'']
      then Inl ValueError else Inr value)"

definition validate_confidence_level :: "string \<Rightarrow> error + string" where
  "validate_confidence_level value =
     (if lower (strip value) \<notin> set [''high'', ''medium'', ''low'', ''not available'']
      then Inl ValueError else Inr value)"

definition is_placeholder_area :: "AreaObservation \<Rightarrow> bool" where
  "is_placeholder_area area =
     (strip (inspection_observation area) = ''Not Available''
      \<and> strip (thermal_observation area) = ''Not Available''
      \<and> strip (merged_finding area) = ''Not Available'')"

text \<open>
  \<open>DDRReport.validate_area_observations\<close>: the loop raises at the first key that is
  blank, or that is a "general" whose area is a placeholder.
\<close>

definition bad_area_key :: "(string \<times> AreaObservation) list \<Rightarrow> string \<Rightarrow> bool" where
  "bad_area_key value key =
     (key = [] \<or> strip key = []
      \<or> (lower (strip key) = ''general''
          \<and> (case dict_get value key of Some area \<Rightarrow> is_placeholder_area area | None \<Rightarrow> False)))"

definition validate_area_observations ::
    "(string \<times> AreaObservation) list \<Rightarrow> error + (string \<times> AreaObservation) list" where
  "validate_area_observations value =
     (if list_ex (bad_area_key value) (map fst value) then Inl ValueError else Inr value)"

definition validate_missing_info_list :: "string list \<Rightarrow> error + string list" where
  "validate_missing_info_list value =
     (if list_ex (\<lambda>item. strip item = []) value then Inl ValueError
      else Inr (map strip value))"

text \<open>
  What pydantic (version 2, default configuration) does around the validators above.
  A \<open>str\<close> field takes a \<open>str\<close> and no other value that \<open>json.loads\<close> can produce; a
  required field must be present; a field with a default takes the default, unvalidated,
  when absent; keys that are not flds are ignored; the validators of a field run in
  the order of their definition, each on the value the one before returned; every
  failure ends in the one \<open>ValidationError\<close>.
\<close>

fun str_type :: "'n json \<Rightarrow> error + string" where
  "str_type (JStr s) = Inr s"
| "str_type _ = Inl ValidationError"

definition required_str :: "'n dict \<Rightarrow> string \<Rightarrow> (string \<Rightarrow> error + string) \<Rightarrow> error + string" where
  "required_str flds name validator =
     (case dict_get flds name of
        None \<Rightarrow> Inl ValidationError
      | Some v \<Rightarrow> and_then (str_type v) validator)"

definition default_str ::
    "'n dict \<Rightarrow> string \<Rightarrow> string \<Rightarrow> (string \<Rightarrow> error + string) \<Rightarrow> error + string" where
  "default_str flds name dflt validator =
     (case dict_get flds name of
        None \<Rightarrow> Inr dflt
      | Some v \<Rightarrow> and_then (str_type v) validator)"

definition AreaObservation_validate :: "'n json \<Rightarrow> error + AreaObservation" where
  "AreaObservation_validate v =
     (case v of
        JDict flds \<Rightarrow>
          (let io = required_str flds ''inspection_observation'' validate_non_empty;
               tho = required_str flds ''thermal_observation'' validate_non_empty;
               mf = required_str flds ''merged_finding'' validate_non_empty;
               dt = default_str flds ''dampness_type'' ''Not Available''
                      (\<lambda>s. and_then (validate_non_empty s) validate_dampness_type);
               ier = default_str flds ''inspection_evidence_ref'' ''Not Available''
                      validate_non_empty;
               ter = default_str flds ''thermal_evidence_ref'' ''Not Available''
                      validate_non_empty;
               cn = default_str flds ''conflict_note'' ''Not Available'' validate_non_empty
           in if isl io \<or> isl tho \<or> isl mf \<or> isl dt \<or> isl ier \<or> isl ter \<or> isl cn
              then Inl ValidationError
              else Inr \<lparr> inspection_observation = projr io,
                         thermal_observation = projr tho,
                         merged_finding = projr mf,
                         dampness_type = projr dt,
                         inspection_evidence_ref = projr ier,
                         thermal_evidence_ref = projr ter,
                         conflict_note = projr cn \<rparr>)
      | _ \<Rightarrow> Inl ValidationError)"

definition SeverityAssessment_validate :: "'n json \<Rightarrow> error + SeverityAssessment" where
  "SeverityAssessment_validate v =
     (case v of
        JDict flds \<Rightarrow>
          (let os = required_str flds ''overall_severity''
                      (\<lambda>s. and_then (validate_non_empty s) validate_overall_severity);
               re = required_str flds ''reasoning'' validate_non_empty;
               cl = required_str flds ''Confidence_Level''
                      (\<lambda>s. and_then (validate_non_empty s) validate_confidence_level);
               cr = required_str flds ''Confidence_Reasoning'' validate_non_empty
           in if isl os \<or> isl re \<or> isl cl \<or> isl cr then Inl ValidationError
              else Inr \<lparr> overall_severity = projr os,
                         reasoning = projr re,
                         Confidence_Level = projr cl,
                         Confidence_Reasoning = projr cr \<rparr>)
      | _ \<Rightarrow> Inl ValidationError)"

text \<open>\<open>Dict[str, AreaObservation]\<close>, then the field validator on the typed mapping.\<close>

definition area_mapping_validate :: "'n json \<Rightarrow> error + (string \<times> AreaObservation) list" where
  "area_mapping_validate v =
     (case v of
        JDict areas \<Rightarrow>
          (let rs = map (\<lambda>(name, a). (name, AreaObservation_validate a)) areas in
           if list_ex (\<lambda>(name, r). isl r) rs then Inl ValidationError
           else validate_area_observations (map (\<lambda>(name, r). (name, projr r)) rs))
      | _ \<Rightarrow> Inl ValidationError)"

text \<open>\<open>List[str]\<close>, then the field validator on the typed list.\<close>

definition str_list_validate :: "'n json \<Rightarrow> error + string list" where
  "str_list_validate v =
     (case v of
        JList items \<Rightarrow>
          (let rs = map str_type items in
           if list_ex isl rs then Inl ValidationError
           else validate_missing_info_list (map projr rs))
      | _ \<Rightarrow> Inl ValidationError)"

definition required_field :: "'n dict \<Rightarrow> string \<Rightarrow> ('n json \<Rightarrow> error + 'a) \<Rightarrow> error + 'a" where
  "required_field flds name validator =
     (case dict_get flds name of
        None \<Rightarrow> Inl ValidationError
      | Some v \<Rightarrow> validator v)"

text \<open>\<open>DDRReport.model_validate(obj)\<close> for a dict \<open>obj\<close>, given by its items.\<close>

definition DDRReport_model_validate :: "'n dict \<Rightarrow> error + DDRReport" where
  "DDRReport_model_validate obj =
     (let pis = required_str obj ''Property_Issue_Summary'' validate_non_empty;
          awo = required_field obj ''Area_Wise_Observations'' area_mapping_validate;
          prc = required_str obj ''Probable_Root_Cause'' validate_non_empty;
          sa = required_field obj ''Severity_Assessment'' SeverityAssessment_validate;
          ra = required_str obj ''Recommended_Actions'' validate_non_empty;
          ri = required_str obj ''Risk_Implications'' validate_non_empty;
          an = required_str obj ''Additional_Notes'' validate_non_empty;
          miu = required_field obj ''Missing_or_Unclear_Information'' str_list_validate
      in if isl pis \<or> isl awo \<or> isl prc \<or> isl sa \<or> isl ra \<or> isl ri \<or> isl an \<or> isl miu
         then Inl ValidationError
         else Inr \<lparr> Property_Issue_Summary = projr pis,
                    Area_Wise_Observations = projr awo,
                    Probable_Root_Cause = projr prc,
                    Severity_Assessment = projr sa,
                    Recommended_Actions = projr ra,
                    Risk_Implications = projr ri,
                    Additional_Notes = projr an,
                    Missing_or_Unclear_Information = projr miu \<rparr>)"

section \<open>llm_engine.py: the transport call and the retry loop\<close>

text \<open>
  The reply of \<open>requests.post\<close>: its status code and what \<open>response.json()\<close>
  gives, \<open>None\<close> when the body is not JSON.  \<open>requests.post\<close> itself is a function
  from the prompt to a reply, or to \<open>None\<close> when it raises.
\<close>

record 'n http_response =
  status_code :: nat
  json_body :: "'n json option"

text \<open>
  \<open>_call_openrouter(prompt)\<close>.  \<open>api_key\<close> is the value of the environment variable
  read by \<open>get_openrouter_api_key\<close> (the empty text when unset), which raises
  \<open>RuntimeError\<close> on a blank key while the headers are built.
\<close>

definition call_openrouter ::
    "string \<Rightarrow> (string \<Rightarrow> 'n http_response option) \<Rightarrow> string \<Rightarrow> error + string" where
  "call_openrouter api_key post prompt =
     (if strip api_key = [] then Inl RuntimeError
      else (case post prompt of
        None \<Rightarrow> Inl (LLMGenerationError (Some RequestException))
      | Some response \<Rightarrow>
          if status_code response = 429 then Inl LLMQuotaExceededError
          else if status_code response = 401 \<or> status_code response = 403 then Inl LLMAuthError
          else if status_code response \<ge> 400 then Inl (LLMGenerationError None)
          else (case json_body response of
            None \<Rightarrow> Inl (LLMGenerationError (Some ValueError))
          | Some data \<Rightarrow>
              (case subtree data [Key ''choices'', Index 0, Key ''message'', Key ''content''] of
                 None \<Rightarrow> Inl (LLMGenerationError (Some LookupOrTypeError))
               | Some response_text \<Rightarrow>
                   (case response_text of
                      JStr text \<Rightarrow>
                        if strip text = [] then Inl (LLMGenerationError None) else Inr text
                    | _ \<Rightarrow> Inl (LLMGenerationError None))))))"

text \<open>
  \<open>_parse_and_validate(raw_text)\<close>.  \<open>loads\<close> is \<open>json.loads\<close>, \<open>None\<close> where it raises
  \<open>JSONDecodeError\<close>; the payload it is given begins with an opening brace, so what it
  returns is a dict, given by its items.
\<close>

definition parse_and_validate ::
    "(string \<Rightarrow> 'n dict option) \<Rightarrow> string \<Rightarrow> error + DDRReport" where
  "parse_and_validate loads raw_text =
     and_then (extract_json_payload raw_text) (\<lambda>json_payload.
       case loads json_payload of
         None \<Rightarrow> Inl JSONDecodeError
       | Some parsed \<Rightarrow> DDRReport_model_validate (coerce_to_schema_shape parsed))"

text \<open>\<open>s.replace(old, new)\<close> for a non-empty \<open>old\<close>.\<close>

function py_replace :: "string \<Rightarrow> string \<Rightarrow> string \<Rightarrow> string" where
  "py_replace s old new =
     (if s = [] \<or> old = [] then s
      else if startswith s old then new @ py_replace (drop (length old) s) old new
      else hd s # py_replace (tl s) old new)"
  by pat_completeness auto
termination
  by (relation "measure (\<lambda>(s, old, new). length s)") auto

definition MAX_INPUT_CHARS_PER_REPORT :: nat where
  "MAX_INPUT_CHARS_PER_REPORT = 20000"

text \<open>Lines 240-250; \<open>template\<close> is \<open>DDR_PROMPT_TEMPLATE\<close>.\<close>

definition base_prompt :: "string \<Rightarrow> string \<Rightarrow> string \<Rightarrow> string" where
  "base_prompt template inspection_text thermal_text =
     (let inspection_slice = take MAX_INPUT_CHARS_PER_REPORT inspection_text;
          thermal_slice = take MAX_INPUT_CHARS_PER_REPORT thermal_text
      in py_replace (py_replace template ''{inspection_text}'' inspection_slice)
           ''{thermal_text}'' thermal_slice)"

definition RETRY_SUFFIX :: string where
  "RETRY_SUFFIX = [CHR 0x0A, CHR 0x0A] @
     ''Your previous response was invalid. Return ONLY a valid JSON object with the exact schema.''"

text \<open>
  The clause \<open>except (json.JSONDecodeError, ValidationError, ValueError,
  LLMGenerationError)\<close>, reached by what the clause for the two subclasses let through.
\<close>

fun caught :: "error \<Rightarrow> bool" where
  "caught JSONDecodeError = True"
| "caught ValidationError = True"
| "caught ValueError = True"
| "caught (LLMGenerationError _) = True"
| "caught _ = False"

text \<open>
  The loop \<open>for attempt in range(2)\<close> over the attempts still to run, with the loop's
  variables \<open>retry_suffix\<close> and \<open>last_error\<close>, and the log \<open>calls\<close> of the prompts that
  \<open>_call_openrouter\<close> was invoked with.  \<open>transport attempt\<close> is the invocation of
  \<open>_call_openrouter\<close> in round \<open>attempt\<close>, \<open>pv\<close> is \<open>_parse_and_validate\<close>.  Leaving the
  loop, by \<open>break\<close> or at its end, reaches the final \<open>raise ... from last_error\<close>.
\<close>

fun attempts ::
    "(nat \<Rightarrow> string \<Rightarrow> error + string) \<Rightarrow> (string \<Rightarrow> error + DDRReport) \<Rightarrow> string
       \<Rightarrow> nat list \<Rightarrow> string \<Rightarrow> error option \<Rightarrow> string list
       \<Rightarrow> (error + DDRReport) \<times> string list" where
  "attempts transport pv base [] retry_suffix last_error calls =
     (Inl (LLMGenerationError last_error), calls)"
| "attempts transport pv base (attempt # rest) retry_suffix last_error calls =
     (let prompt = base @ retry_suffix; calls = calls @ [prompt] in
      case and_then (transport attempt prompt) pv of
        Inr report \<Rightarrow> (Inr report, calls)
      | Inl exc \<Rightarrow>
          if exc = LLMQuotaExceededError \<or> exc = LLMAuthError then (Inl exc, calls)
          else if caught exc then
            (if attempt = 0
             then attempts transport pv base rest RETRY_SUFFIX (Some exc) calls
             else attempts transport pv base [] retry_suffix (Some exc) calls)
          else (Inl exc, calls))"

text \<open>
  \<open>generate_ddr(inspection_text, thermal_text)\<close>: the result, and the prompts of the
  transport calls in order.  \<open>post attempt\<close> is \<open>requests.post\<close> at the time of round
  \<open>attempt\<close>.
\<close>

definition generate_ddr ::
    "string \<Rightarrow> (nat \<Rightarrow> string \<Rightarrow> 'n http_response option) \<Rightarrow> (string \<Rightarrow> 'n dict option)
       \<Rightarrow> string \<Rightarrow> string \<Rightarrow> string \<Rightarrow> (error + DDRReport) \<times> string list" where
  "generate_ddr api_key post loads template inspection_text thermal_text =
     attempts (\<lambda>attempt. call_openrouter api_key (post attempt)) (parse_and_validate loads)
       (base_prompt template inspection_text thermal_text) [0, 1] [] None []"

section \<open>Vocabulary of the properties\<close>

text \<open>A text that \<open>strip\<close> leaves alone: empty, or with no blank at either end.\<close>

definition trimmed :: "string \<Rightarrow> bool" where
  "trimmed s = (s = [] \<or> (\<not> isspace (hd s) \<and> \<not> isspace (last s)))"

text \<open>
  A missing value: \<open>None\<close>, or a text that is one of the aliases up to case.
\<close>

fun is_missing :: "'n json \<Rightarrow> bool" where
  "is_missing JNull = True"
| "is_missing (JStr s) = (lower s \<in> set MISSING_ALIASES)"
| "is_missing _ = False"

text \<open>
  The shape of a coerced document: exactly the eight keys at the top, every area a
  mapping with the seven fields, the severity a mapping with its four fields, and a
  non-empty sequence of missing information.
\<close>

definition AREA_FIELDS :: "string list" where
  "AREA_FIELDS = [''inspection_observation'', ''thermal_observation'', ''merged_finding'',
     ''dampness_type'', ''inspection_evidence_ref'', ''thermal_evidence_ref'', ''conflict_note'']"

definition SEVERITY_FIELDS :: "string list" where
  "SEVERITY_FIELDS = [''overall_severity'', ''reasoning'', ''Confidence_Level'', ''Confidence_Reasoning'']"

definition has_keys :: "string list \<Rightarrow> 'n json \<Rightarrow> bool" where
  "has_keys names v = (case v of JDict flds \<Rightarrow> list_all (\<lambda>name. dict_get flds name \<noteq> None) names | _ \<Rightarrow> False)"

definition schema_shaped :: "'n dict \<Rightarrow> bool" where
  "schema_shaped doc =
     (set (map fst doc) = set EXPECTED_TOP_LEVEL_KEYS
      \<and> (case dict_get doc ''Area_Wise_Observations'' of
            Some (JDict areas) \<Rightarrow> list_all (\<lambda>(area, v). has_keys AREA_FIELDS v) areas
          | _ \<Rightarrow> False)
      \<and> (case dict_get doc ''Severity_Assessment'' of
            Some v \<Rightarrow> has_keys SEVERITY_FIELDS v
          | _ \<Rightarrow> False)
      \<and> (case dict_get doc ''Missing_or_Unclear_Information'' of
            Some (JList items) \<Rightarrow> items \<noteq> []
          | _ \<Rightarrow> False))"

text \<open>
  What the stages of the coercion leave under the keys they rewrite, as functions of
  what stood there before.
\<close>

definition severity_out :: "'n json option \<Rightarrow> 'n json" where
  "severity_out x = (case x of
      Some (JDict severity) \<Rightarrow> normalize_missing_markers (JDict
         (dict_setdefault (dict_setdefault (dict_setdefault (dict_setdefault severity
            ''overall_severity'' (JStr ''Not Available''))
            ''reasoning'' (JStr ''Not Available''))
            ''Confidence_Level'' (JStr ''Not Available''))
            ''Confidence_Reasoning'' (JStr ''Not Available'')))
    | _ \<Rightarrow> JDict default_severity)"

definition missing_out :: "'n json option \<Rightarrow> 'n json" where
  "missing_out x = (case x of
      Some (JList items) \<Rightarrow> if items = [] then JList [JStr ''Not Available''] else JList items
    | _ \<Rightarrow> JList [JStr ''Not Available''])"

definition areas_in :: "'n json option \<Rightarrow> 'n dict" where
  "areas_in x = (case x of Some (JDict a) \<Rightarrow> a | _ \<Rightarrow> [])"

definition normalized_items :: "'n dict \<Rightarrow> 'n dict" where
  "normalized_items data = map (\<lambda>(k, v). (k, normalize_missing_markers v)) data"

text \<open>
  What a field of an area holds when it carries nothing: it is absent, it is \<open>None\<close>,
  or it is a text that, trimmed, is the sentinel or an alias up to case.
\<close>

definition sentinel_or_missing :: "'n json option \<Rightarrow> bool" where
  "sentinel_or_missing x =
     (case x of
        None \<Rightarrow> True
      | Some JNull \<Rightarrow> True
      | Some (JStr s) \<Rightarrow> strip s = ''Not Available'' \<or> lower (strip s) \<in> set MISSING_ALIASES
      | _ \<Rightarrow> False)"

text \<open>
  An example document: one area \<open>"Hall"\<close> with the given \<open>dampness_type\<close>, its other
  fields and every other field of the report at the sentinel.
\<close>

definition sample_report :: "string \<Rightarrow> 'n dict" where
  "sample_report dampness =
     [(''Property_Issue_Summary'', JStr ''Not Available''),
      (''Area_Wise_Observations'',
         JDict [(''Hall'', JDict [(''inspection_observation'', JStr ''Not Available''),
                                  (''thermal_observation'', JStr ''Not Available''),
                                  (''merged_finding'', JStr ''Not Available''),
                                  (''dampness_type'', JStr dampness)])]),
      (''Probable_Root_Cause'', JStr ''Not Available''),
      (''Severity_Assessment'', JDict default_severity),
      (''Recommended_Actions'', JStr ''Not Available''),
      (''Risk_Implications'', JStr ''Not Available''),
      (''Additional_Notes'', JStr ''Not Available''),
      (''Missing_or_Unclear_Information'', JList [JStr ''Not Available''])]"

section \<open>Trimming and lower-casing\<close>

lemma rstrip_prefix: "rstrip s @ rev (takeWhile isspace (rev s)) = s"
proof -
  have "rev (takeWhile isspace (rev s) @ dropWhile isspace (rev s)) = s"
    by simp
  then show ?thesis unfolding rstrip_def by (simp del: takeWhile_dropWhile_id)
qed

lemma trimmed_strip_id: "trimmed s \<Longrightarrow> strip s = s"
proof (cases s)
  case Nil
  then show ?thesis by (simp add: strip_def lstrip_def rstrip_def)
next
  case (Cons c cs)
  assume "trimmed s"
  with Cons have h: "\<not> isspace (hd s)" and l: "\<not> isspace (last s)"
    by (auto simp: trimmed_def)
  from Cons h have "lstrip s = s" by (simp add: lstrip_def)
  moreover have "s \<noteq> []" using Cons by simp
  then have "hd (rev s) = last s" by (simp add: hd_rev)
  with l have "dropWhile isspace (rev s) = rev s"
    by (simp only: dropWhile_eq_self_iff) simp
  then have "rstrip s = s" by (simp add: rstrip_def)
  ultimately show ?thesis by (simp add: strip_def)
qed

lemma trimmed_strip: "trimmed (strip s)"
proof (cases "strip s = []")
  case True
  then show ?thesis by (simp add: trimmed_def)
next
  case False
  let ?t = "lstrip s"
  let ?u = "rstrip ?t"
  from False have u: "?u \<noteq> []" by (simp add: strip_def)
  then have d: "dropWhile isspace (rev ?t) \<noteq> []" by (simp add: rstrip_def)
  have "last ?u = hd (dropWhile isspace (rev ?t))"
    using d by (simp add: rstrip_def last_rev)
  with d have l: "\<not> isspace (last ?u)" by (simp add: hd_dropWhile)
  have "?u @ rev (takeWhile isspace (rev ?t)) = ?t" by (rule rstrip_prefix)
  then have "hd ?t = hd ?u" using u by (metis hd_append2)
  moreover have "?t \<noteq> []" using u by (auto simp: rstrip_def)
  then have "\<not> isspace (hd ?t)" unfolding lstrip_def by (rule hd_dropWhile)
  ultimately have "\<not> isspace (hd ?u)" by simp
  with l show ?thesis by (simp add: trimmed_def strip_def)
qed

lemma strip_idem: "strip (strip s) = strip s"
  by (rule trimmed_strip_id) (rule trimmed_strip)

lemma isspace_lower_char: "isspace c \<Longrightarrow> lower_char c = c"
  by (auto simp: isspace_def lower_char_def)

lemma strip_sentinel: "strip ''Not Available'' = ''Not Available''"
  by (rule trimmed_strip_id) (simp add: trimmed_def isspace_def)

lemma lower_sentinel: "lower ''Not Available'' = ''not available''"
  by (simp add: lower_def lower_char_def char_of_def bit_Suc_0_iff)

lemma sentinel_not_alias: "lower ''Not Available'' \<notin> set MISSING_ALIASES"
  by (simp add: lower_sentinel MISSING_ALIASES_def)

lemma alias_edges:
  assumes "a \<in> set MISSING_ALIASES" "a \<noteq> []"
  shows "\<not> isspace (hd a) \<and> \<not> isspace (last a)"
  using assms by (auto simp: MISSING_ALIASES_def isspace_def)

lemma lower_alias_trimmed:
  assumes "lower s \<in> set MISSING_ALIASES"
  shows "strip s = s"
proof (rule trimmed_strip_id, cases "s = []")
  case True
  then show "trimmed s" by (simp add: trimmed_def)
next
  case False
  then have ne: "lower s \<noteq> []" by (simp add: lower_def)
  from alias_edges[OF assms ne]
  have h: "\<not> isspace (hd (lower s))" and l: "\<not> isspace (last (lower s))" by simp_all
  have "hd (lower s) = lower_char (hd s)" using False by (simp add: lower_def hd_map)
  with h have "\<not> isspace (hd s)" using isspace_lower_char by force
  moreover have "last (lower s) = lower_char (last s)" using False by (simp add: lower_def last_map)
  with l have "\<not> isspace (last s)" using isspace_lower_char by force
  ultimately show "trimmed s" by (simp add: trimmed_def)
qed

lemma normalize_idem: "normalize_missing_markers (normalize_missing_markers t) = normalize_missing_markers t"
proof (induction t rule: normalize_missing_markers.induct)
  case (1 kvs)
  then show ?case by (auto simp: case_prod_unfold)
next
  case (2 xs)
  then show ?case by simp
next
  case 3
  then show ?case by (simp add: strip_sentinel sentinel_not_alias)
next
  case (4 s)
  then show ?case by (simp add: Let_def strip_sentinel sentinel_not_alias strip_idem)
qed simp_all

section \<open>The normalizer\<close>

lemma map_of_map_values:
  "map_of (map (\<lambda>(k, v). (k, f v)) kvs) k = map_option f (map_of kvs k)"
  by (induction kvs) auto

lemma subtree_normalize:
  "subtree (normalize_missing_markers t) p = map_option normalize_missing_markers (subtree t p)"
proof (induction t p rule: subtree.induct)
  case (2 kvs k p)
  then show ?case
    by (cases "map_of kvs k") (simp_all add: map_of_map_values)
qed (simp_all add: Let_def)

lemma normalize_missing: "is_missing v \<Longrightarrow> normalize_missing_markers v = JStr ''Not Available''"
  by (cases v) (simp_all add: Let_def lower_alias_trimmed)

lemma normalize_not_missing: "\<not> is_missing (normalize_missing_markers v)"
  by (cases v) (simp_all add: Let_def sentinel_not_alias)

lemma normalize_keys:
  "map fst (dict_items (normalize_missing_markers (JDict kvs))) = map fst kvs"
  by (simp add: case_prod_unfold comp_def)

text \<open>
  Claim C4, as amended.  Normalization rewrites every missing value (\<open>None\<close>, or an alias
  up to case) that stands as a value anywhere in the tree, that is as the value under a
  key of a mapping, as an element of a sequence or as the tree itself, to the sentinel
  \<open>"Not Available"\<close>: at every position \<open>p\<close> of the tree where a missing value stands, the
  normalized tree has the sentinel; no value of the normalized tree is missing; and the
  keys of every mapping are kept as they are, in their order.
\<close>

theorem normalize_rewrites_values:
  "(subtree t p = Some v \<and> is_missing v \<longrightarrow>
      subtree (normalize_missing_markers t) p = Some (JStr ''Not Available''))
   \<and> (subtree (normalize_missing_markers t) p = Some w \<longrightarrow> \<not> is_missing w)
   \<and> (subtree t p = Some (JDict kvs) \<longrightarrow>
        (\<exists>kvs'. subtree (normalize_missing_markers t) p = Some (JDict kvs')
           \<and> map fst kvs' = map fst kvs))"
proof (intro conjI impI)
  assume "subtree t p = Some v \<and> is_missing v"
  then show "subtree (normalize_missing_markers t) p = Some (JStr ''Not Available'')"
    by (simp add: subtree_normalize normalize_missing)
next
  assume "subtree (normalize_missing_markers t) p = Some w"
  then obtain u where "w = normalize_missing_markers u"
    by (auto simp: subtree_normalize)
  then show "\<not> is_missing w" by (simp add: normalize_not_missing)
next
  assume "subtree t p = Some (JDict kvs)"
  then show "\<exists>kvs'. subtree (normalize_missing_markers t) p = Some (JDict kvs')
           \<and> map fst kvs' = map fst kvs"
    by (simp add: subtree_normalize case_prod_unfold comp_def)
qed

theorem normalize_rewrites_values_witness:
  "subtree (JDict [(''a'', JList [JNum (1::int), JStr ''N/A''])]) [Key ''a'', Index 1]
     = Some (JStr ''N/A'')
   \<and> is_missing (JStr ''N/A'' :: int json)
   \<and> subtree (normalize_missing_markers (JDict [(''a'', JList [JNum (1::int), JStr ''N/A''])]))
        [Key ''a'', Index 1] = Some (JStr ''Not Available'')
   \<and> \<not> is_missing (JStr ''Not Available'' :: int json)
   \<and> (\<exists>kvs'. subtree (normalize_missing_markers (JDict [(''a'', JList [JNum (1::int), JStr ''N/A''])])) []
          = Some (JDict kvs') \<and> map fst kvs' = [''a''])"
proof -
  let ?t = "JDict [(''a'', JList [JNum (1::int), JStr ''N/A''])]"
  have l: "lower ''N/A'' = ''n/a''"
    by (simp add: lower_def lower_char_def char_of_def bit_Suc_0_iff)
  have a: "subtree ?t [Key ''a'', Index 1] = Some (JStr ''N/A'')" by simp
  have b: "is_missing (JStr ''N/A'' :: int json)" by (simp add: l MISSING_ALIASES_def)
  from normalize_rewrites_values[of ?t "[Key ''a'', Index 1]" "JStr ''N/A''"] a b
  have c: "subtree (normalize_missing_markers ?t) [Key ''a'', Index 1]
             = Some (JStr ''Not Available'')"
    by blast
  with normalize_rewrites_values[of ?t "[Key ''a'', Index 1]" _ "JStr ''Not Available''"]
  have d: "\<not> is_missing (JStr ''Not Available'' :: int json)" by blast
  have "subtree ?t [] = Some (JDict [(''a'', JList [JNum (1::int), JStr ''N/A''])])" by simp
  with normalize_rewrites_values[of ?t "[]" _ _ "[(''a'', JList [JNum (1::int), JStr ''N/A''])]"]
  have e: "\<exists>kvs'. subtree (normalize_missing_markers ?t) [] = Some (JDict kvs')
             \<and> map fst kvs' = [''a'']"
    by simp
  from a b c d e show ?thesis by blast
qed

text \<open>
  Claim C4 as stated fails for an alias that stands as a key: the key \<open>"n/a"\<close> is an
  alias and the normalizer returns the mapping with that key unchanged.
\<close>

theorem normalize_keeps_alias_key:
  "is_missing (JStr ''n/a'' :: int json)
   \<and> normalize_missing_markers (JDict [(''n/a'', JStr ''damp'')])
       = (JDict [(''n/a'', JStr ''damp'')] :: int json)"
proof -
  have "lower ''n/a'' = ''n/a''"
    by (simp add: lower_def lower_char_def char_of_def bit_Suc_0_iff)
  moreover have "strip ''damp'' = ''damp''"
    by (rule trimmed_strip_id) (simp add: trimmed_def isspace_def)
  moreover have "lower ''damp'' = ''damp''"
    by (simp add: lower_def lower_char_def char_of_def bit_Suc_0_iff)
  ultimately show ?thesis by (simp add: MISSING_ALIASES_def)
qed

section \<open>The payload extractor\<close>

lemma match_to_last_close_None: "match_to_last_close cs = None \<longleftrightarrow> CHR ''}'' \<notin> set cs"
  by (induction cs) (auto split: option.splits)

lemma match_to_last_close_Some:
  "match_to_last_close cs = Some m \<longleftrightarrow>
     (\<exists>mid post. cs = mid @ CHR ''}'' # post \<and> CHR ''}'' \<notin> set post \<and> m = mid @ [CHR ''}''])"
proof (induction cs arbitrary: m)
  case Nil
  then show ?case by simp
next
  case (Cons c cs)
  show ?case
  proof (cases "match_to_last_close cs")
    case None
    then have no: "CHR ''}'' \<notin> set cs" by (simp add: match_to_last_close_None)
    show ?thesis
    proof
      assume "match_to_last_close (c # cs) = Some m"
      with None have "c = CHR ''}''" "m = [c]" by (auto split: if_splits)
      with no show "\<exists>mid post. c # cs = mid @ CHR ''}'' # post \<and> CHR ''}'' \<notin> set post \<and> m = mid @ [CHR ''}'']"
        by (intro exI[of _ "[]"] exI[of _ cs]) simp
    next
      assume "\<exists>mid post. c # cs = mid @ CHR ''}'' # post \<and> CHR ''}'' \<notin> set post \<and> m = mid @ [CHR ''}'']"
      then obtain mid post where e: "c # cs = mid @ CHR ''}'' # post" and m: "m = mid @ [CHR ''}'']"
        by blast
      from e no have "mid = []" by (cases mid) auto
      with e m None show "match_to_last_close (c # cs) = Some m" by simp
    qed
  next
    case (Some m')
    with Cons.IH[of m'] obtain mid post where
      cs: "cs = mid @ CHR ''}'' # post" and post: "CHR ''}'' \<notin> set post" and m': "m' = mid @ [CHR ''}'']"
      by blast
    show ?thesis
    proof
      assume "match_to_last_close (c # cs) = Some m"
      with Some have "m = c # m'" by simp
      with cs post m' show "\<exists>mid post. c # cs = mid @ CHR ''}'' # post \<and> CHR ''}'' \<notin> set post \<and> m = mid @ [CHR ''}'']"
        by (intro exI[of _ "c # mid"] exI[of _ post]) simp
    next
      assume "\<exists>mid post. c # cs = mid @ CHR ''}'' # post \<and> CHR ''}'' \<notin> set post \<and> m = mid @ [CHR ''}'']"
      then obtain mid2 post2 where e: "c # cs = mid2 @ CHR ''}'' # post2"
        and p2: "CHR ''}'' \<notin> set post2" and m: "m = mid2 @ [CHR ''}'']"
        by blast
      have "mid2 \<noteq> []"
      proof
        assume "mid2 = []"
        with e have "cs = post2" by simp
        with p2 cs show False by simp
      qed
      then obtain mid3 where mid2: "mid2 = c # mid3" using e by (cases mid2) auto
      with e have "cs = mid3 @ CHR ''}'' # post2" by simp
      with p2 have "match_to_last_close cs = Some (mid3 @ [CHR ''}''])"
        using Cons.IH[of "mid3 @ [CHR ''}'']"] by blast
      with Some m mid2 show "match_to_last_close (c # cs) = Some m" by simp
    qed
  qed
qed

lemma last_close_exists:
  "CHR ''}'' \<in> set cs \<Longrightarrow> \<exists>mid post. cs = mid @ CHR ''}'' # post \<and> CHR ''}'' \<notin> set post"
  by (metis split_list_last)

lemma search_braces_None:
  "search_braces s = None \<longleftrightarrow> \<not> (\<exists>pre mid post. s = pre @ CHR ''{'' # mid @ CHR ''}'' # post)"
proof (induction s)
  case Nil
  then show ?case by simp
next
  case (Cons c cs)
  show ?case
  proof (cases "c = CHR ''{'' \<and> CHR ''}'' \<in> set cs")
    case True
    then obtain mid post where "cs = mid @ CHR ''}'' # post"
      using last_close_exists by blast
    with True have "c # cs = [] @ CHR ''{'' # mid @ CHR ''}'' # post" by simp
    then have "\<exists>pre mid post. c # cs = pre @ CHR ''{'' # mid @ CHR ''}'' # post" by blast
    moreover from True have "search_braces (c # cs) \<noteq> None"
      by (auto simp: match_to_last_close_None split: option.splits)
    ultimately show ?thesis by blast
  next
    case False
    then have "c = CHR ''{'' \<Longrightarrow> match_to_last_close cs = None"
      by (simp add: match_to_last_close_None)
    then have s: "search_braces (c # cs) = search_braces cs"
      by (cases "c = CHR ''{''") simp_all
    have "(\<exists>pre mid post. c # cs = pre @ CHR ''{'' # mid @ CHR ''}'' # post)
       \<longleftrightarrow> (\<exists>pre mid post. cs = pre @ CHR ''{'' # mid @ CHR ''}'' # post)"
    proof
      assume "\<exists>pre mid post. c # cs = pre @ CHR ''{'' # mid @ CHR ''}'' # post"
      then obtain pre mid post where e: "c # cs = pre @ CHR ''{'' # mid @ CHR ''}'' # post" by blast
      show "\<exists>pre mid post. cs = pre @ CHR ''{'' # mid @ CHR ''}'' # post"
      proof (cases pre)
        case Nil
        with e have "c = CHR ''{''" "cs = mid @ CHR ''}'' # post" by simp_all
        with False show ?thesis by simp
      next
        case (Cons a pre')
        with e have "cs = pre' @ CHR ''{'' # mid @ CHR ''}'' # post" by simp
        then show ?thesis by blast
      qed
    next
      assume "\<exists>pre mid post. cs = pre @ CHR ''{'' # mid @ CHR ''}'' # post"
      then obtain pre mid post where "cs = pre @ CHR ''{'' # mid @ CHR ''}'' # post" by blast
      then have "c # cs = (c # pre) @ CHR ''{'' # mid @ CHR ''}'' # post" by simp
      then show "\<exists>pre mid post. c # cs = pre @ CHR ''{'' # mid @ CHR ''}'' # post" by blast
    qed
    with s Cons.IH show ?thesis by simp
  qed
qed

lemma search_braces_Some:
  "search_braces s = Some m \<Longrightarrow>
     \<exists>pre mid post. s = pre @ CHR ''{'' # mid @ CHR ''}'' # post
        \<and> CHR ''{'' \<notin> set pre \<and> CHR ''}'' \<notin> set post \<and> m = CHR ''{'' # mid @ [CHR ''}'']"
proof (induction s)
  case Nil
  then show ?case by simp
next
  case (Cons c cs)
  show ?case
  proof (cases "c = CHR ''{''")
    case True
    show ?thesis
    proof (cases "match_to_last_close cs")
      case None
      with True Cons.prems have "search_braces cs = Some m" by simp
      moreover from None have "CHR ''}'' \<notin> set cs" by (simp add: match_to_last_close_None)
      then have "search_braces cs = None" by (auto simp: search_braces_None)
      ultimately show ?thesis by simp
    next
      case (Some m')
      then obtain mid post where
        "cs = mid @ CHR ''}'' # post" "CHR ''}'' \<notin> set post" "m' = mid @ [CHR ''}'']"
        by (auto simp: match_to_last_close_Some)
      moreover from Some True Cons.prems have "m = c # m'" by simp
      ultimately show ?thesis using True
        by (intro exI[of _ "[]"] exI[of _ mid] exI[of _ post]) simp
    qed
  next
    case False
    with Cons.prems have "search_braces cs = Some m" by simp
    with Cons.IH obtain pre mid post where
      "cs = pre @ CHR ''{'' # mid @ CHR ''}'' # post" "CHR ''{'' \<notin> set pre"
      "CHR ''}'' \<notin> set post" "m = CHR ''{'' # mid @ [CHR ''}'']"
      by blast
    with False show ?thesis
      by (intro exI[of _ "c # pre"] exI[of _ mid] exI[of _ post]) simp
  qed
qed

text \<open>
  Claim C8.  With \<open>candidate\<close> the trimmed input: when it begins with an opening and ends
  with a closing brace, extraction returns it whole.  Otherwise, when it has a span from
  an opening brace to a later closing brace, extraction returns the span from the first
  opening brace (none stands before it) to the last closing brace (none stands after
  it), whatever characters lie between.  Otherwise extraction fails with the
  \<open>ValueError\<close> that is the extraction error.
\<close>

theorem extract_json_payload_contract:
  "(startswith (strip raw) ''{'' \<and> endswith (strip raw) ''}'' \<longrightarrow>
      extract_json_payload raw = Inr (strip raw))
   \<and> (\<not> (startswith (strip raw) ''{'' \<and> endswith (strip raw) ''}'')
        \<and> (\<exists>pre mid post. strip raw = pre @ CHR ''{'' # mid @ CHR ''}'' # post) \<longrightarrow>
      (\<exists>pre mid post. strip raw = pre @ CHR ''{'' # mid @ CHR ''}'' # post
         \<and> CHR ''{'' \<notin> set pre \<and> CHR ''}'' \<notin> set post
         \<and> extract_json_payload raw = Inr (CHR ''{'' # mid @ [CHR ''}''])))
   \<and> (\<not> (startswith (strip raw) ''{'' \<and> endswith (strip raw) ''}'')
        \<and> \<not> (\<exists>pre mid post. strip raw = pre @ CHR ''{'' # mid @ CHR ''}'' # post) \<longrightarrow>
      extract_json_payload raw = Inl ValueError)"
proof (intro conjI impI)
  assume "startswith (strip raw) ''{'' \<and> endswith (strip raw) ''}''"
  then show "extract_json_payload raw = Inr (strip raw)"
    by (simp add: extract_json_payload_def)
next
  assume a: "\<not> (startswith (strip raw) ''{'' \<and> endswith (strip raw) ''}'')
        \<and> (\<exists>pre mid post. strip raw = pre @ CHR ''{'' # mid @ CHR ''}'' # post)"
  then have "search_braces (strip raw) \<noteq> None" by (simp add: search_braces_None)
  then obtain m where m: "search_braces (strip raw) = Some m" by blast
  from search_braces_Some[OF m] obtain pre mid post where
    "strip raw = pre @ CHR ''{'' # mid @ CHR ''}'' # post" "CHR ''{'' \<notin> set pre"
    "CHR ''}'' \<notin> set post" "m = CHR ''{'' # mid @ [CHR ''}'']"
    by blast
  moreover from a have "\<not> (startswith (strip raw) ''{'' \<and> endswith (strip raw) ''}'')"
    by blast
  with m have "extract_json_payload raw = Inr m"
    by (simp only: extract_json_payload_def Let_def if_False option.case)
  ultimately show "\<exists>pre mid post. strip raw = pre @ CHR ''{'' # mid @ CHR ''}'' # post
         \<and> CHR ''{'' \<notin> set pre \<and> CHR ''}'' \<notin> set post
         \<and> extract_json_payload raw = Inr (CHR ''{'' # mid @ [CHR ''}''])"
    by blast
next
  assume a: "\<not> (startswith (strip raw) ''{'' \<and> endswith (strip raw) ''}'')
        \<and> \<not> (\<exists>pre mid post. strip raw = pre @ CHR ''{'' # mid @ CHR ''}'' # post)"
  then have "search_braces (strip raw) = None" by (simp add: search_braces_None)
  with a show "extract_json_payload raw = Inl ValueError"
    by (simp add: extract_json_payload_def Let_def)
qed

lemma strip_eval1: "strip '' {a} '' = ''{a}''"
  by (simp add: strip_def lstrip_def rstrip_def isspace_def)
lemma strip_eval2: "strip ''x {a}} y'' = ''x {a}} y''"
  by (simp add: strip_def lstrip_def rstrip_def isspace_def)
lemma strip_eval3: "strip ''} no {'' = ''} no {''"
  by (simp add: strip_def lstrip_def rstrip_def isspace_def)

theorem extract_json_payload_contract_witness:
  "extract_json_payload '' {a} '' = Inr ''{a}''
   \<and> (\<exists>pre mid post. ''x {a}} y'' = pre @ CHR ''{'' # mid @ CHR ''}'' # post
         \<and> CHR ''{'' \<notin> set pre \<and> CHR ''}'' \<notin> set post
         \<and> extract_json_payload ''x {a}} y'' = Inr (CHR ''{'' # mid @ [CHR ''}'']))
   \<and> extract_json_payload ''x {a}} y'' = Inr ''{a}}''
   \<and> extract_json_payload ''} no {'' = Inl ValueError"
proof -
  have 1: "extract_json_payload '' {a} '' = Inr ''{a}''"
    using extract_json_payload_contract[of "'' {a} ''"]
    by (simp add: strip_eval1 startswith_def endswith_def)
  have s: "\<not> (startswith ''x {a}} y'' ''{'' \<and> endswith ''x {a}} y'' ''}'')"
    by (simp add: startswith_def)
  have e: "''x {a}} y'' = ''x '' @ CHR ''{'' # ''a}'' @ CHR ''}'' # '' y''" by simp
  then have "\<exists>pre mid post. ''x {a}} y'' = pre @ CHR ''{'' # mid @ CHR ''}'' # post"
    by blast
  with extract_json_payload_contract[of "''x {a}} y''"] s
  have 2: "\<exists>pre mid post. ''x {a}} y'' = pre @ CHR ''{'' # mid @ CHR ''}'' # post
         \<and> CHR ''{'' \<notin> set pre \<and> CHR ''}'' \<notin> set post
         \<and> extract_json_payload ''x {a}} y'' = Inr (CHR ''{'' # mid @ [CHR ''}''])"
    unfolding strip_eval2 by blast
  have 3: "extract_json_payload ''x {a}} y'' = Inr ''{a}}''"
    by (simp add: extract_json_payload_def strip_eval2 startswith_def)
  have sb: "search_braces ''} no {'' = None" by simp
  have n: "\<not> (\<exists>pre mid post. ''} no {'' = pre @ CHR ''{'' # mid @ CHR ''}'' # post)"
    using search_braces_None[of "''} no {''"] sb by blast
  have "\<not> (startswith ''} no {'' ''{'' \<and> endswith ''} no {'' ''}'')"
    by (simp add: startswith_def)
  with extract_json_payload_contract[of "''} no {''"] n
  have 4: "extract_json_payload ''} no {'' = Inl ValueError"
    unfolding strip_eval3 by blast
  from 1 2 3 4 show ?thesis by blast
qed

section \<open>The coercer\<close>

lemma map_of_dict_set: "map_of (dict_set d k v) = (map_of d)(k \<mapsto> v)"
  by (induction d) (auto simp: fun_eq_iff)

lemma keys_dict_set: "k \<in> set (map fst d) \<Longrightarrow> map fst (dict_set d k v) = map fst d"
  by (induction d) auto

lemma keys_dict_set_mem: "set (map fst (dict_set d k v)) = insert k (set (map fst d))"
  by (induction d) auto

lemma map_of_setdefault:
  "map_of (dict_setdefault d k v) k' =
     (if k' = k then (case map_of d k of None \<Rightarrow> Some v | Some x \<Rightarrow> Some x) else map_of d k')"
  by (auto simp: dict_setdefault_def map_add_def split: option.splits)

lemma setdefault_present: "map_of d k \<noteq> None \<Longrightarrow> dict_setdefault d k v = d"
  by (auto simp: dict_setdefault_def)

lemma dict_set_append:
  "k \<notin> set (map fst pre) \<Longrightarrow> dict_set (pre @ (k, v) # rest) k v' = pre @ (k, v') # rest"
  by (induction pre) auto

lemma fold_dict_set_map:
  assumes "distinct (map fst xs)" "set (map fst pre) \<inter> set (map fst xs) = {}"
  shows "fold (\<lambda>e acc. dict_set acc (fst e) (g (snd e))) xs (pre @ xs)
         = pre @ map (\<lambda>(k, v). (k, g v)) xs"
  using assms
proof (induction xs arbitrary: pre)
  case Nil
  then show ?case by simp
next
  case (Cons x xs)
  obtain k v where x: "x = (k, v)" by (cases x)
  from Cons.prems x have k: "k \<notin> set (map fst pre)" by auto
  have "fold (\<lambda>e acc. dict_set acc (fst e) (g (snd e))) (x # xs) (pre @ x # xs)
      = fold (\<lambda>e acc. dict_set acc (fst e) (g (snd e))) xs ((pre @ [(k, g v)]) @ xs)"
    using x dict_set_append[OF k] by simp
  also have "\<dots> = (pre @ [(k, g v)]) @ map (\<lambda>(k, v). (k, g v)) xs"
    using Cons.prems x by (intro Cons.IH) auto
  finally show ?case using x by simp
qed

lemma coerce_areas_map:
  "distinct (map fst areas) \<Longrightarrow>
     coerce_areas areas = map (\<lambda>(k, v). (k, coerce_area_value v)) areas"
  using fold_dict_set_map[of areas "[]" coerce_area_value]
  by (simp add: coerce_areas_def coerce_area_step_def[abs_def])

lemma set_dict_pop: "set (dict_pop d k) \<subseteq> set d"
  by (induction d) auto

lemma map_of_dict_pop:
  "distinct (map fst d) \<Longrightarrow> map_of (dict_pop d k) k' = (if k' = k then None else map_of d k')"
proof (induction d)
  case Nil
  then show ?case by simp
next
  case (Cons p d)
  show ?case
  proof (cases "fst p = k")
    case True
    with Cons.prems show ?thesis
      by (cases p) (auto simp: map_of_eq_None_iff image_iff)
  next
    case False
    with Cons show ?thesis by (cases p) auto
  qed
qed

lemma distinct_dict_pop: "distinct (map fst d) \<Longrightarrow> distinct (map fst (dict_pop d k))"
  using set_dict_pop by (induction d) force+

lemma copy_fold_keys:
  "set ks \<subseteq> set (map fst c) \<Longrightarrow>
   map fst (fold (\<lambda>key c. case map_of n key of Some v \<Rightarrow> dict_set c key v | None \<Rightarrow> c) ks c)
     = map fst c"
proof (induction ks arbitrary: c)
  case Nil
  then show ?case by simp
next
  case (Cons key ks)
  show ?case
  proof (cases "map_of n key")
    case None
    with Cons show ?thesis by simp
  next
    case (Some v)
    from Cons.prems have k: "key \<in> set (map fst c)" by simp
    then have m: "map fst (dict_set c key v) = map fst c" by (rule keys_dict_set)
    with Cons.prems have "set ks \<subseteq> set (map fst (dict_set c key v))" by simp
    from Cons.IH[OF this] m Some show ?thesis by simp
  qed
qed

lemma copy_fold_lookup:
  "map_of (fold (\<lambda>key c. case map_of n key of Some v \<Rightarrow> dict_set c key v | None \<Rightarrow> c) ks c) k
     = (if k \<in> set ks then (case map_of n k of Some v \<Rightarrow> Some v | None \<Rightarrow> map_of c k)
        else map_of c k)"
  by (induction ks arbitrary: c) (auto simp: map_of_dict_set split: option.splits)

lemma keys_default: "map fst (build_default_structure :: 'n dict) = EXPECTED_TOP_LEVEL_KEYS"
  by (simp add: build_default_structure_def EXPECTED_TOP_LEVEL_KEYS_def)

lemma keys_copy: "map fst (copy_expected_keys n build_default_structure) = EXPECTED_TOP_LEVEL_KEYS"
  unfolding copy_expected_keys_def
  by (subst copy_fold_keys) (simp_all add: keys_default)

lemma lookup_copy:
  "map_of (copy_expected_keys n (build_default_structure :: 'n dict)) k
     = (if k \<in> set EXPECTED_TOP_LEVEL_KEYS
        then (case map_of n k of Some v \<Rightarrow> Some v | None \<Rightarrow> map_of build_default_structure k)
        else None)"
proof -
  have "k \<notin> set EXPECTED_TOP_LEVEL_KEYS \<Longrightarrow> map_of (build_default_structure :: 'n dict) k = None"
    using keys_default[where 'n='n] by (metis map_of_eq_None_iff set_map)
  then show ?thesis unfolding copy_expected_keys_def by (simp add: copy_fold_lookup)
qed

lemma keys_force: "''Area_Wise_Observations'' \<in> set (map fst c) \<Longrightarrow> map fst (force_area_mapping c) = map fst c"
  by (auto simp: force_area_mapping_def keys_dict_set split: option.splits json.splits)

lemma lookup_force:
  "map_of (force_area_mapping c) k =
     (if k = ''Area_Wise_Observations''
      then (case map_of c k of Some (JDict a) \<Rightarrow> Some (JDict a) | _ \<Rightarrow> Some (JDict []))
      else map_of c k)"
  by (auto simp: force_area_mapping_def map_of_dict_set split: option.splits json.splits)

lemma keys_severity: "''Severity_Assessment'' \<in> set (map fst c) \<Longrightarrow> map fst (coerce_severity c) = map fst c"
  by (auto simp: coerce_severity_def keys_dict_set Let_def split: option.splits json.splits)

lemma lookup_severity:
  "map_of (coerce_severity c) k =
     (if k = ''Severity_Assessment'' then Some (severity_out (map_of c k)) else map_of c k)"
  by (auto simp: coerce_severity_def severity_out_def map_of_dict_set Let_def
      split: option.splits json.splits)

lemma keys_missing: "''Missing_or_Unclear_Information'' \<in> set (map fst c) \<Longrightarrow> map fst (coerce_missing_info c) = map fst c"
  by (auto simp: coerce_missing_info_def keys_dict_set split: option.splits json.splits)

lemma lookup_missing:
  "map_of (coerce_missing_info c) k =
     (if k = ''Missing_or_Unclear_Information'' then Some (missing_out (map_of c k)) else map_of c k)"
  by (auto simp: coerce_missing_info_def missing_out_def map_of_dict_set
      split: option.splits json.splits)

lemma keys_update_areas: "''Area_Wise_Observations'' \<in> set (map fst c) \<Longrightarrow> map fst (update_areas f c) = map fst c"
  by (simp add: update_areas_def keys_dict_set)

lemma lookup_update_areas:
  "map_of (update_areas f c) k =
     (if k = ''Area_Wise_Observations''
      then Some (JDict (f (case map_of c k of Some v \<Rightarrow> dict_items v | None \<Rightarrow> [])))
      else map_of c k)"
  by (simp add: update_areas_def map_of_dict_set)

lemma AWO_expected: "''Area_Wise_Observations'' \<in> set EXPECTED_TOP_LEVEL_KEYS"
  and SA_expected: "''Severity_Assessment'' \<in> set EXPECTED_TOP_LEVEL_KEYS"
  and MI_expected: "''Missing_or_Unclear_Information'' \<in> set EXPECTED_TOP_LEVEL_KEYS"
  by (simp_all add: EXPECTED_TOP_LEVEL_KEYS_def)

lemma keys_coerce: "map fst (coerce_to_schema_shape data) = EXPECTED_TOP_LEVEL_KEYS"
  by (simp add: coerce_to_schema_shape_def Let_def keys_update_areas keys_missing keys_severity
      keys_force keys_copy AWO_expected SA_expected MI_expected)

lemma lookup_default:
  "map_of (build_default_structure :: 'n dict) k =
     (if k = ''Area_Wise_Observations'' then Some (JDict [])
      else if k = ''Severity_Assessment'' then Some (JDict default_severity)
      else if k = ''Missing_or_Unclear_Information'' then Some (JList [JStr ''Not Available''])
      else if k \<in> set EXPECTED_TOP_LEVEL_KEYS then Some (JStr ''Not Available'') else None)"
  by (simp add: build_default_structure_def EXPECTED_TOP_LEVEL_KEYS_def)

lemma lookup_stage4:
  "map_of (coerce_missing_info (coerce_severity (force_area_mapping
      (copy_expected_keys n (build_default_structure :: 'n dict))))) k =
    (if k = ''Area_Wise_Observations'' then Some (JDict (areas_in (map_of n k)))
     else if k = ''Severity_Assessment'' then
       Some (severity_out (Some (case map_of n k of Some v \<Rightarrow> v | None \<Rightarrow> JDict default_severity)))
     else if k = ''Missing_or_Unclear_Information'' then Some (missing_out (map_of n k))
     else if k \<in> set EXPECTED_TOP_LEVEL_KEYS then
       Some (case map_of n k of Some v \<Rightarrow> v | None \<Rightarrow> JStr ''Not Available'')
     else None)"
proof -
  let ?c1 = "copy_expected_keys n (build_default_structure :: 'n dict)"
  consider (awo) "k = ''Area_Wise_Observations''" | (sa) "k = ''Severity_Assessment''"
    | (mi) "k = ''Missing_or_Unclear_Information''"
    | (other) "k \<noteq> ''Area_Wise_Observations''" "k \<noteq> ''Severity_Assessment''"
        "k \<noteq> ''Missing_or_Unclear_Information''"
    by blast
  then show ?thesis
  proof cases
    case awo
    have "map_of ?c1 k = Some (case map_of n k of Some v \<Rightarrow> v | None \<Rightarrow> JDict [])"
      by (simp add: lookup_copy lookup_default awo AWO_expected split: option.splits)
    then have "map_of (force_area_mapping ?c1) k = Some (JDict (areas_in (map_of n k)))"
      by (cases "map_of n k")
         (simp_all add: lookup_force awo areas_in_def split: json.splits)
    then show ?thesis
      by (simp add: lookup_missing lookup_severity awo)
  next
    case sa
    have "map_of ?c1 k = Some (case map_of n k of Some v \<Rightarrow> v | None \<Rightarrow> JDict default_severity)"
      by (simp add: lookup_copy lookup_default sa SA_expected split: option.splits)
    then have "map_of (force_area_mapping ?c1) k
        = Some (case map_of n k of Some v \<Rightarrow> v | None \<Rightarrow> JDict default_severity)"
      by (simp add: lookup_force sa)
    then show ?thesis
      by (simp add: lookup_missing lookup_severity sa)
  next
    case mi
    have "map_of ?c1 k = Some (case map_of n k of Some v \<Rightarrow> v | None \<Rightarrow> JList [JStr ''Not Available''])"
      by (simp add: lookup_copy lookup_default mi MI_expected split: option.splits)
    then have "map_of (coerce_severity (force_area_mapping ?c1)) k
        = Some (case map_of n k of Some v \<Rightarrow> v | None \<Rightarrow> JList [JStr ''Not Available''])"
      by (simp add: lookup_force lookup_severity mi)
    moreover have "missing_out (Some (case map_of n k of Some v \<Rightarrow> v
          | None \<Rightarrow> JList [JStr ''Not Available''])) = missing_out (map_of n k)"
      by (cases "map_of n k") (simp_all add: missing_out_def)
    ultimately show ?thesis
      by (simp add: lookup_missing mi)
  next
    case other
    have "map_of ?c1 k = (if k \<in> set EXPECTED_TOP_LEVEL_KEYS
        then Some (case map_of n k of Some v \<Rightarrow> v | None \<Rightarrow> JStr ''Not Available'') else None)"
      by (simp add: lookup_copy lookup_default other split: option.splits)
    then show ?thesis
      by (simp add: lookup_missing lookup_severity lookup_force other)
  qed
qed

lemma lookup_coerce:
  "map_of (coerce_to_schema_shape data) k =
    (if k = ''Area_Wise_Observations'' then
       Some (JDict (drop_placeholder_general (coerce_areas (areas_in (map_of (normalized_items data) k)))))
     else if k = ''Severity_Assessment'' then
       Some (severity_out (Some (case map_of (normalized_items data) k of Some v \<Rightarrow> v | None \<Rightarrow> JDict default_severity)))
     else if k = ''Missing_or_Unclear_Information'' then
       Some (missing_out (map_of (normalized_items data) k))
     else if k \<in> set EXPECTED_TOP_LEVEL_KEYS then
       Some (case map_of (normalized_items data) k of Some v \<Rightarrow> v | None \<Rightarrow> JStr ''Not Available'')
     else None)"
proof -
  have n: "dict_items (normalize_missing_markers (JDict data)) = normalized_items data"
    by (simp add: normalized_items_def)
  show ?thesis
    unfolding coerce_to_schema_shape_def Let_def n
    by (simp only: lookup_update_areas lookup_stage4) simp
qed

lemma wf_lookup: "wf_json (JDict d) \<Longrightarrow> map_of d k = Some v \<Longrightarrow> wf_json v"
  by (auto simp: list_all_iff dest!: map_of_SomeD)

lemma normalize_dict_inv:
  "normalize_missing_markers v = JDict a \<Longrightarrow>
     \<exists>a0. v = JDict a0 \<and> a = map (\<lambda>(k, v). (k, normalize_missing_markers v)) a0"
  by (cases v) (auto simp: Let_def split: if_splits)

lemma lookup_normalized_items:
  "map_of (normalized_items data) k = map_option normalize_missing_markers (map_of data k)"
  by (simp add: normalized_items_def map_of_map_values)

lemma distinct_areas_in:
  assumes "wf_json (JDict data)"
  shows "distinct (map fst (areas_in (map_of (normalized_items data) k)))"
proof (cases "map_of (normalized_items data) k")
  case None
  then show ?thesis by (simp add: areas_in_def)
next
  case (Some w)
  then obtain v where v: "map_of data k = Some v" and w: "w = normalize_missing_markers v"
    by (auto simp: lookup_normalized_items)
  show ?thesis
  proof (cases w)
    case (JDict a)
    with w obtain a0 where a0: "v = JDict a0"
      "a = map (\<lambda>(k, v). (k, normalize_missing_markers v)) a0"
      using normalize_dict_inv[of v a] by auto
    from wf_lookup[OF assms v] a0 have "distinct (map fst a0)" by simp
    with a0 have "distinct (map fst a)" by (simp add: case_prod_unfold comp_def)
    with Some JDict show ?thesis by (simp add: areas_in_def)
  qed (simp_all add: Some areas_in_def)
qed

lemma lookup_fold_setdefault:
  "map_of (fold (\<lambda>name d. dict_setdefault d name v) names d) k
     = (case map_of d k of Some x \<Rightarrow> Some x
        | None \<Rightarrow> if k \<in> set names then Some v else None)"
proof (induction names arbitrary: d)
  case Nil
  then show ?case by (simp split: option.splits)
next
  case (Cons name names)
  show ?case
    by (cases "map_of d k"; cases "map_of d name")
       (auto simp: Cons.IH map_of_setdefault)
qed

lemma backfill_area_fold:
  "backfill_area f = fold (\<lambda>name d. dict_setdefault d name (JStr ''Not Available'')) AREA_FIELDS f"
  by (simp only: backfill_area_def Let_def AREA_FIELDS_def fold_simps comp_def)

lemma lookup_backfill:
  "map_of (backfill_area f) name
     = (case map_of f name of Some x \<Rightarrow> Some x
        | None \<Rightarrow> if name \<in> set AREA_FIELDS then Some (JStr ''Not Available'') else None)"
  by (simp only: backfill_area_fold lookup_fold_setdefault)

lemma has_keys_normalize_dict:
  "list_all (\<lambda>name. map_of f name \<noteq> None) names \<Longrightarrow>
     has_keys names (normalize_missing_markers (JDict f))"
  by (simp add: has_keys_def list_all_iff map_of_map_values)

lemma has_keys_coerce_area_value: "has_keys AREA_FIELDS (coerce_area_value v)"
proof (cases v)
  case (JDict f)
  have "list_all (\<lambda>name. map_of (backfill_area f) name \<noteq> None) AREA_FIELDS"
    by (simp add: list_all_iff lookup_backfill split: option.splits)
  then show ?thesis using JDict
    by (simp only: coerce_area_value_def json.case has_keys_normalize_dict)
qed (simp_all add: coerce_area_value_def has_keys_def sentinel_area_def AREA_FIELDS_def)

lemma all_drop_placeholder:
  "list_all P areas \<Longrightarrow> list_all P (drop_placeholder_general areas)"
  using set_dict_pop[of areas "''General''"]
  by (auto simp: drop_placeholder_general_def list_all_iff split: option.splits json.splits)

lemma lookup_four_setdefault:
  "map_of (dict_setdefault (dict_setdefault (dict_setdefault (dict_setdefault s
            ''overall_severity'' (JStr ''Not Available''))
            ''reasoning'' (JStr ''Not Available''))
            ''Confidence_Level'' (JStr ''Not Available''))
            ''Confidence_Reasoning'' (JStr ''Not Available'')) name
    = (case map_of s name of Some x \<Rightarrow> Some x
       | None \<Rightarrow> if name \<in> set SEVERITY_FIELDS then Some (JStr ''Not Available'') else None)"
proof -
  have "dict_setdefault (dict_setdefault (dict_setdefault (dict_setdefault s
            ''overall_severity'' (JStr ''Not Available''))
            ''reasoning'' (JStr ''Not Available''))
            ''Confidence_Level'' (JStr ''Not Available''))
            ''Confidence_Reasoning'' (JStr ''Not Available'')
      = fold (\<lambda>name d. dict_setdefault d name (JStr ''Not Available'')) SEVERITY_FIELDS s"
    by (simp only: SEVERITY_FIELDS_def fold_simps comp_def)
  then show ?thesis by (simp only: lookup_fold_setdefault)
qed

lemma has_keys_severity_out: "has_keys SEVERITY_FIELDS (severity_out x)"
proof (cases "\<exists>s. x = Some (JDict s)")
  case True
  then obtain s where s: "x = Some (JDict s)" by blast
  show ?thesis unfolding s severity_out_def option.case json.case
    by (rule has_keys_normalize_dict)
       (simp add: list_all_iff lookup_four_setdefault split: option.splits)
next
  case False
  then have "severity_out x = JDict default_severity"
    by (auto simp: severity_out_def split: option.splits json.splits)
  then show ?thesis
    by (simp add: has_keys_def default_severity_def SEVERITY_FIELDS_def)
qed

lemma missing_out_nonempty: "\<exists>items. missing_out x = JList items \<and> items \<noteq> []"
  by (auto simp: missing_out_def split: option.splits json.splits)

lemma shaped_coerce:
  assumes "wf_json (JDict data)"
  shows "schema_shaped (coerce_to_schema_shape data)"
proof -
  let ?A = "areas_in (map_of (normalized_items data) ''Area_Wise_Observations'')"
  have "coerce_areas ?A = map (\<lambda>(k, v). (k, coerce_area_value v)) ?A"
    by (rule coerce_areas_map) (rule distinct_areas_in[OF assms])
  then have "list_all (\<lambda>(area, v). has_keys AREA_FIELDS v) (coerce_areas ?A)"
    by (simp add: list_all_iff has_keys_coerce_area_value case_prod_unfold)
  then have a: "list_all (\<lambda>(area, v). has_keys AREA_FIELDS v)
      (drop_placeholder_general (coerce_areas ?A))"
    by (rule all_drop_placeholder)
  obtain items where m: "missing_out (map_of (normalized_items data) ''Missing_or_Unclear_Information'')
      = JList items" "items \<noteq> []"
    using missing_out_nonempty by blast
  show ?thesis
    unfolding schema_shaped_def
    by (simp add: keys_coerce lookup_coerce a has_keys_severity_out m)
qed

lemma areas_in_non_mapping:
  assumes "\<forall>areas. map_of data k \<noteq> Some (JDict areas)"
  shows "areas_in (map_of (normalized_items data) k) = []"
proof (cases "map_of data k")
  case None
  then show ?thesis by (simp add: lookup_normalized_items areas_in_def)
next
  case (Some v)
  with assms have "\<forall>a. normalize_missing_markers v \<noteq> JDict a"
    using normalize_dict_inv[of v] by blast
  with Some show ?thesis
    by (simp add: lookup_normalized_items areas_in_def split: json.splits)
qed

lemma coerce_areas_Nil: "coerce_areas [] = []"
  by (simp add: coerce_areas_def)

lemma drop_placeholder_Nil: "drop_placeholder_general [] = []"
  by (simp add: drop_placeholder_general_def)

lemma lookup_drop_placeholder:
  "distinct (map fst areas) \<Longrightarrow> map_of (drop_placeholder_general areas) area = Some x
     \<Longrightarrow> map_of areas area = Some x"
  by (auto simp: drop_placeholder_general_def map_of_dict_pop
      split: option.splits json.splits if_splits)

lemma normalize_sentinel:
  "normalize_missing_markers (JStr ''Not Available'') = JStr ''Not Available''"
  by (simp add: strip_sentinel sentinel_not_alias)

lemma coerce_area_value_backfilled:
  assumes "name \<in> set AREA_FIELDS" "map_of flds name = None"
    "coerce_area_value (normalize_missing_markers (JDict flds)) = JDict out_flds"
  shows "map_of out_flds name = Some (JStr ''Not Available'')"
proof -
  let ?n = "map (\<lambda>(k, v). (k, normalize_missing_markers v)) flds"
  have "map_of ?n name = None" using assms(2) by (simp add: map_of_map_values)
  with assms(1) have "map_of (backfill_area ?n) name = Some (JStr ''Not Available'')"
    by (simp add: lookup_backfill)
  moreover from assms(3)
  have "out_flds = map (\<lambda>(k, v). (k, normalize_missing_markers v)) (backfill_area ?n)"
    by (simp add: coerce_area_value_def)
  ultimately show ?thesis
    by (simp add: map_of_map_values Let_def strip_sentinel sentinel_not_alias)
qed

lemma coerce_backfills:
  assumes wf: "wf_json (JDict data)"
    and a: "map_of data ''Area_Wise_Observations'' = Some (JDict areas)"
    and f: "map_of areas area = Some (JDict flds)"
    and n: "name \<in> set AREA_FIELDS" "map_of flds name = None"
    and o: "map_of (coerce_to_schema_shape data) ''Area_Wise_Observations'' = Some (JDict out_areas)"
      "map_of out_areas area = Some (JDict out_flds)"
  shows "map_of out_flds name = Some (JStr ''Not Available'')"
proof -
  let ?A = "areas_in (map_of (normalized_items data) ''Area_Wise_Observations'')"
  have A: "?A = map (\<lambda>(k, v). (k, normalize_missing_markers v)) areas"
    using a by (simp add: lookup_normalized_items areas_in_def)
  have d: "distinct (map fst ?A)" by (rule distinct_areas_in[OF wf])
  then have m: "coerce_areas ?A = map (\<lambda>(k, v). (k, coerce_area_value v)) ?A"
    by (rule coerce_areas_map)
  then have d2: "distinct (map fst (coerce_areas ?A))"
    using d by (simp add: case_prod_unfold comp_def)
  from o(1) have "out_areas = drop_placeholder_general (coerce_areas ?A)"
    by (simp add: lookup_coerce)
  with o(2) d2 have "map_of (coerce_areas ?A) area = Some (JDict out_flds)"
    using lookup_drop_placeholder by blast
  then have "map_of (map (\<lambda>(k, v). (k, coerce_area_value v))
      (map (\<lambda>(k, v). (k, normalize_missing_markers v)) areas)) area = Some (JDict out_flds)"
    using m A by simp
  then have "coerce_area_value (normalize_missing_markers (JDict flds)) = JDict out_flds"
    using f by (simp add: map_of_map_values del: map_map)
  with n show ?thesis by (rule coerce_area_value_backfilled)
qed

text \<open>
  Claim C3.  For every input mapping (a dict, so with distinct keys at every level; any
  subset of the eight keys, any values), the coerced document is schema shaped: its keys
  are exactly the eight top-level keys, \<open>Area_Wise_Observations\<close> is a mapping and every
  entry of it is a mapping with all seven area fields, \<open>Severity_Assessment\<close> is a
  mapping with all four fields, \<open>Missing_or_Unclear_Information\<close> is a non-empty
  sequence.  When the input has no mapping under \<open>Area_Wise_Observations\<close>, the result
  has the empty mapping there; and a field that an area of the input lacks is
  \<open>"Not Available"\<close> in that area of the result.
\<close>

theorem coerce_schema_complete:
  assumes "wf_json (JDict data)"
  shows "schema_shaped (coerce_to_schema_shape data)
    \<and> ((\<forall>areas. dict_get data ''Area_Wise_Observations'' \<noteq> Some (JDict areas)) \<longrightarrow>
          dict_get (coerce_to_schema_shape data) ''Area_Wise_Observations'' = Some (JDict []))
    \<and> (dict_get data ''Area_Wise_Observations'' = Some (JDict areas)
        \<and> dict_get areas area = Some (JDict flds)
        \<and> name \<in> set AREA_FIELDS \<and> dict_get flds name = None
        \<and> dict_get (coerce_to_schema_shape data) ''Area_Wise_Observations'' = Some (JDict out_areas)
        \<and> dict_get out_areas area = Some (JDict out_flds) \<longrightarrow>
          dict_get out_flds name = Some (JStr ''Not Available''))"
proof (intro conjI impI)
  show "schema_shaped (coerce_to_schema_shape data)" by (rule shaped_coerce[OF assms])
next
  assume "\<forall>areas. dict_get data ''Area_Wise_Observations'' \<noteq> Some (JDict areas)"
  then show "dict_get (coerce_to_schema_shape data) ''Area_Wise_Observations'' = Some (JDict [])"
    by (simp add: lookup_coerce areas_in_non_mapping coerce_areas_Nil drop_placeholder_Nil)
next
  assume "dict_get data ''Area_Wise_Observations'' = Some (JDict areas)
        \<and> dict_get areas area = Some (JDict flds)
        \<and> name \<in> set AREA_FIELDS \<and> dict_get flds name = None
        \<and> dict_get (coerce_to_schema_shape data) ''Area_Wise_Observations'' = Some (JDict out_areas)
        \<and> dict_get out_areas area = Some (JDict out_flds)"
  then show "dict_get out_flds name = Some (JStr ''Not Available'')"
    using coerce_backfills[OF assms] by blast
qed


lemma strip_wet: "strip ''wet'' = ''wet''"
  by (simp add: strip_def lstrip_def rstrip_def isspace_def)

lemma lower_wet: "lower ''wet'' = ''wet''"
  by (simp add: lower_def lower_char_def char_of_def bit_Suc_0_iff)

lemma normalize_wet: "normalize_missing_markers (JStr ''wet'') = JStr ''wet''"
  by (simp add: strip_wet lower_wet MISSING_ALIASES_def)

lemma coerce_area_value_wet:
  "coerce_area_value (JDict [(''merged_finding'', JStr ''wet'')]) =
     JDict [(''merged_finding'', JStr ''wet''),
            (''inspection_observation'', JStr ''Not Available''),
            (''thermal_observation'', JStr ''Not Available''),
            (''dampness_type'', JStr ''Not Available''),
            (''inspection_evidence_ref'', JStr ''Not Available''),
            (''thermal_evidence_ref'', JStr ''Not Available''),
            (''conflict_note'', JStr ''Not Available'')]"
proof -
  have b: "backfill_area [(''merged_finding'', JStr ''wet'')] =
     [(''merged_finding'', JStr ''wet''),
      (''inspection_observation'', JStr ''Not Available''),
      (''thermal_observation'', JStr ''Not Available''),
      (''dampness_type'', JStr ''Not Available''),
      (''inspection_evidence_ref'', JStr ''Not Available''),
      (''thermal_evidence_ref'', JStr ''Not Available''),
      (''conflict_note'', JStr ''Not Available'')]"
    by (simp add: backfill_area_def dict_setdefault_def)
  show ?thesis
    unfolding coerce_area_value_def json.case b
    by (simp add: strip_wet lower_wet MISSING_ALIASES_def strip_sentinel lower_sentinel)
qed

theorem coerce_schema_complete_witness:
  "wf_json (JDict [(''Area_Wise_Observations'',
       JDict [(''Hall'', JDict [(''merged_finding'', JStr ''wet'')])])] :: int json)
   \<and> schema_shaped (coerce_to_schema_shape [(''Area_Wise_Observations'',
       JDict [(''Hall'', JDict [(''merged_finding'', JStr ''wet'')])])] :: int dict)
   \<and> dict_get (coerce_to_schema_shape [(''Area_Wise_Observations'',
       JDict [(''Hall'', JDict [(''merged_finding'', JStr ''wet'')])])] :: int dict)
         ''Area_Wise_Observations'' =
       Some (JDict [(''Hall'', JDict [(''merged_finding'', JStr ''wet''),
            (''inspection_observation'', JStr ''Not Available''),
            (''thermal_observation'', JStr ''Not Available''),
            (''dampness_type'', JStr ''Not Available''),
            (''inspection_evidence_ref'', JStr ''Not Available''),
            (''thermal_evidence_ref'', JStr ''Not Available''),
            (''conflict_note'', JStr ''Not Available'')])])
   \<and> dict_get [(''merged_finding'', JStr ''wet'' :: int json),
            (''inspection_observation'', JStr ''Not Available''),
            (''thermal_observation'', JStr ''Not Available''),
            (''dampness_type'', JStr ''Not Available''),
            (''inspection_evidence_ref'', JStr ''Not Available''),
            (''thermal_evidence_ref'', JStr ''Not Available''),
            (''conflict_note'', JStr ''Not Available'')] ''dampness_type''
       = Some (JStr ''Not Available'')
   \<and> wf_json (JDict [(''Area_Wise_Observations'', JList [])] :: int json)
   \<and> dict_get (coerce_to_schema_shape [(''Area_Wise_Observations'', JList [])] :: int dict)
         ''Area_Wise_Observations'' = Some (JDict [])"
proof -
  let ?d0 = "[(''Area_Wise_Observations'',
       JDict [(''Hall'', JDict [(''merged_finding'', JStr ''wet'')])])] :: int dict"
  let ?d1 = "[(''Area_Wise_Observations'', JList [])] :: int dict"
  have w0: "wf_json (JDict ?d0)" by simp
  have w1: "wf_json (JDict ?d1)" by simp
  have s0: "schema_shaped (coerce_to_schema_shape ?d0)"
    using coerce_schema_complete[OF w0] by blast
  have n0: "normalized_items ?d0 = ?d0"
    by (simp add: normalized_items_def strip_wet lower_wet MISSING_ALIASES_def)
  have a0: "dict_get (coerce_to_schema_shape ?d0) ''Area_Wise_Observations'' =
       Some (JDict [(''Hall'', JDict [(''merged_finding'', JStr ''wet''),
            (''inspection_observation'', JStr ''Not Available''),
            (''thermal_observation'', JStr ''Not Available''),
            (''dampness_type'', JStr ''Not Available''),
            (''inspection_evidence_ref'', JStr ''Not Available''),
            (''thermal_evidence_ref'', JStr ''Not Available''),
            (''conflict_note'', JStr ''Not Available'')])])"
    by (simp add: lookup_coerce n0 areas_in_def coerce_areas_def coerce_area_step_def
        coerce_area_value_wet drop_placeholder_general_def)
  let ?hall = "[(''merged_finding'', JStr ''wet'' :: int json),
            (''inspection_observation'', JStr ''Not Available''),
            (''thermal_observation'', JStr ''Not Available''),
            (''dampness_type'', JStr ''Not Available''),
            (''inspection_evidence_ref'', JStr ''Not Available''),
            (''thermal_evidence_ref'', JStr ''Not Available''),
            (''conflict_note'', JStr ''Not Available'')]"
  have p1: "dict_get ?d0 ''Area_Wise_Observations''
      = Some (JDict [(''Hall'', JDict [(''merged_finding'', JStr ''wet'')])])" by simp
  have p2: "dict_get [(''Hall'', JDict [(''merged_finding'', JStr ''wet'' :: int json)])] ''Hall''
      = Some (JDict [(''merged_finding'', JStr ''wet'')])" by simp
  have p3: "''dampness_type'' \<in> set AREA_FIELDS" by (simp add: AREA_FIELDS_def)
  have p4: "dict_get [(''merged_finding'', JStr ''wet'' :: int json)] ''dampness_type'' = None"
    by simp
  have p5: "dict_get [(''Hall'', JDict ?hall)] ''Hall'' = Some (JDict ?hall)" by simp
  from coerce_schema_complete[OF w0, of "[(''Hall'', JDict [(''merged_finding'', JStr ''wet'')])]"
      "''Hall''" "[(''merged_finding'', JStr ''wet'')]" "''dampness_type''"
      "[(''Hall'', JDict ?hall)]" ?hall] p1 p2 p3 p4 a0 p5
  have b0: "dict_get ?hall ''dampness_type'' = Some (JStr ''Not Available'')"
    by blast
  have "\<forall>areas. dict_get ?d1 ''Area_Wise_Observations'' \<noteq> Some (JDict areas)" by simp
  with coerce_schema_complete[OF w1]
  have a1: "dict_get (coerce_to_schema_shape ?d1) ''Area_Wise_Observations'' = Some (JDict [])"
    by blast
  from w0 s0 a0 b0 w1 a1 show ?thesis by blast
qed


lemma lookup_coerce_areas:
  "map_of (coerce_to_schema_shape data) ''Area_Wise_Observations'' =
     Some (JDict (drop_placeholder_general (coerce_areas
       (areas_in (map_of (normalized_items data) ''Area_Wise_Observations'')))))"
  by (simp add: lookup_coerce)

lemma normalize_sentinel_or_missing:
  "sentinel_or_missing (Some v) \<Longrightarrow> normalize_missing_markers v = JStr ''Not Available''"
  by (cases v) (auto simp: sentinel_or_missing_def Let_def)

lemma placeholder_field:
  assumes "name \<in> set AREA_FIELDS" "sentinel_or_missing (map_of general name)"
  shows "map_of (map (\<lambda>(k, v). (k, normalize_missing_markers v))
           (backfill_area (map (\<lambda>(k, v). (k, normalize_missing_markers v)) general))) name
         = Some (JStr ''Not Available'')"
proof (cases "map_of general name")
  case None
  with assms(1) show ?thesis
    by (simp add: map_of_map_values lookup_backfill Let_def strip_sentinel sentinel_not_alias)
next
  case (Some v)
  with assms(2) have "normalize_missing_markers v = JStr ''Not Available''"
    by (simp add: normalize_sentinel_or_missing)
  with Some show ?thesis
    by (simp add: map_of_map_values lookup_backfill Let_def strip_sentinel sentinel_not_alias)
qed

lemma placeholder_general_dropped:
  assumes "dict_get data ''Area_Wise_Observations'' = Some (JDict [(''General'', JDict general)])"
    and "sentinel_or_missing (dict_get general ''inspection_observation'')"
    and "sentinel_or_missing (dict_get general ''thermal_observation'')"
    and "sentinel_or_missing (dict_get general ''merged_finding'')"
  shows "dict_get (coerce_to_schema_shape data) ''Area_Wise_Observations'' = Some (JDict [])"
proof -
  let ?n = "map (\<lambda>(k, v). (k, normalize_missing_markers v)) general"
  let ?g = "map (\<lambda>(k, v). (k, normalize_missing_markers v)) (backfill_area ?n)"
  have A: "areas_in (map_of (normalized_items data) ''Area_Wise_Observations'')
      = [(''General'', JDict ?n)]"
    using assms(1) by (simp add: lookup_normalized_items areas_in_def)
  have C: "coerce_areas [(''General'', JDict ?n)] = [(''General'', JDict ?g)]"
    by (simp add: coerce_areas_def coerce_area_step_def coerce_area_value_def)
  have "is_placeholder_general ?g"
    unfolding is_placeholder_general_def
    using assms(2-4) by (simp only: placeholder_field AREA_FIELDS_def list.set insert_iff
        simp_thms)
  then have "drop_placeholder_general [(''General'', JDict ?g)] = []"
    by (simp add: drop_placeholder_general_def)
  with A C show ?thesis by (simp only: lookup_coerce_areas)
qed


text \<open>
  Claim C9.  When the only entry of the input's \<open>Area_Wise_Observations\<close> is the key
  \<open>"General"\<close>, and each of \<open>inspection_observation\<close>, \<open>thermal_observation\<close> and
  \<open>merged_finding\<close> of that entry is the sentinel, absent, or a missing value, then
  \<open>Area_Wise_Observations\<close> of the coerced document is the empty mapping.
\<close>

theorem coerce_drops_placeholder_general:
  assumes "dict_get data ''Area_Wise_Observations'' = Some (JDict [(''General'', JDict general)])"
    and "sentinel_or_missing (dict_get general ''inspection_observation'')"
    and "sentinel_or_missing (dict_get general ''thermal_observation'')"
    and "sentinel_or_missing (dict_get general ''merged_finding'')"
  shows "dict_get (coerce_to_schema_shape data) ''Area_Wise_Observations'' = Some (JDict [])"
  using assms by (rule placeholder_general_dropped)

theorem coerce_drops_placeholder_general_witness:
  "sentinel_or_missing (dict_get [(''inspection_observation'', JStr ''N/A''),
        (''thermal_observation'', JNull :: int json)] ''inspection_observation'')
   \<and> sentinel_or_missing (dict_get [(''inspection_observation'', JStr ''N/A''),
        (''thermal_observation'', JNull :: int json)] ''thermal_observation'')
   \<and> sentinel_or_missing (dict_get [(''inspection_observation'', JStr ''N/A''),
        (''thermal_observation'', JNull :: int json)] ''merged_finding'')
   \<and> dict_get (coerce_to_schema_shape
         [(''Area_Wise_Observations'', JDict [(''General'',
             JDict [(''inspection_observation'', JStr ''N/A''),
                    (''thermal_observation'', JNull :: int json)])])])
       ''Area_Wise_Observations'' = Some (JDict [])"
proof -
  let ?g = "[(''inspection_observation'', JStr ''N/A''),
             (''thermal_observation'', JNull :: int json)]"
  let ?d = "[(''Area_Wise_Observations'', JDict [(''General'', JDict ?g)])]"
  have s: "strip ''N/A'' = ''N/A''"
    by (simp add: strip_def lstrip_def rstrip_def isspace_def)
  have l: "lower ''N/A'' = ''n/a''"
    by (simp add: lower_def lower_char_def char_of_def bit_Suc_0_iff)
  have 1: "sentinel_or_missing (dict_get ?g ''inspection_observation'')"
    by (simp add: sentinel_or_missing_def s l MISSING_ALIASES_def)
  have 2: "sentinel_or_missing (dict_get ?g ''thermal_observation'')"
    by (simp add: sentinel_or_missing_def)
  have 3: "sentinel_or_missing (dict_get ?g ''merged_finding'')"
    by (simp add: sentinel_or_missing_def)
  have 0: "dict_get ?d ''Area_Wise_Observations'' = Some (JDict [(''General'', JDict ?g)])"
    by simp
  from coerce_drops_placeholder_general[OF 0 1 2 3] 1 2 3 show ?thesis by blast
qed

section \<open>The strict validator\<close>

lemma split_on_nonempty: "split_on sep s \<noteq> []"
  by (induction s) (simp_all add: Let_def)

lemma split_on_blank_prefix:
  assumes "\<And>x. x \<in> set w \<Longrightarrow> isspace x" "\<not> isspace sep"
  shows "split_on sep (w @ t) = (w @ hd (split_on sep t)) # tl (split_on sep t)"
  using assms(1)
proof (induction w)
  case Nil
  then show ?case by (simp add: split_on_nonempty)
next
  case (Cons c w)
  from Cons.prems assms(2) have "c \<noteq> sep" by auto
  with Cons show ?case by (simp add: Let_def)
qed

lemma split_on_blank_suffix:
  assumes "\<And>x. x \<in> set w \<Longrightarrow> isspace x" "\<not> isspace sep"
  shows "split_on sep (t @ w) = butlast (split_on sep t) @ [last (split_on sep t) @ w]"
proof (induction t)
  case Nil
  have "split_on sep (w @ []) = (w @ hd (split_on sep [])) # tl (split_on sep [])"
    by (rule split_on_blank_prefix) (simp_all add: assms)
  then show ?case by simp
next
  case (Cons c t)
  show ?case
  proof (cases "c = sep")
    case True
    with Cons show ?thesis by (simp add: split_on_nonempty)
  next
    case False
    let ?r = "split_on sep t"
    have r: "?r \<noteq> []" by (rule split_on_nonempty)
    show ?thesis
    proof (cases "tl ?r = []")
      case True
      with r have "?r = [hd ?r]" by (cases ?r) auto
      then have "butlast ?r = []" "last ?r = hd ?r" by (metis butlast.simps(2) , metis last.simps)
      with Cons False True show ?thesis by (simp add: Let_def)
    next
      case F: False
      with r have b: "butlast ?r = hd ?r # butlast (tl ?r)" "last ?r = last (tl ?r)"
        by (cases ?r; simp)+
      with Cons False F r show ?thesis
        by (simp add: Let_def split_on_nonempty)
    qed
  qed
qed

lemma strip_blank_prefix:
  assumes "\<And>x. x \<in> set w \<Longrightarrow> isspace x"
  shows "strip (w @ p) = strip p"
proof -
  have "dropWhile isspace (w @ p) = dropWhile isspace p"
    by (rule dropWhile_append2) (simp add: assms)
  then show ?thesis by (simp add: strip_def lstrip_def)
qed

lemma rstrip_blank_suffix:
  assumes "\<And>x. x \<in> set w \<Longrightarrow> isspace x"
  shows "rstrip (q @ w) = rstrip q"
proof -
  have "dropWhile isspace (rev w @ rev q) = dropWhile isspace (rev q)"
    by (rule dropWhile_append2) (simp add: assms)
  then show ?thesis by (simp add: rstrip_def)
qed

lemma strip_blank_suffix:
  assumes "\<And>x. x \<in> set w \<Longrightarrow> isspace x"
  shows "strip (p @ w) = strip p"
proof (cases "\<forall>x\<in>set p. isspace x")
  case True
  with assms have "\<forall>x\<in>set (p @ w). isspace x" by auto
  then have a: "dropWhile isspace (p @ w) = []" by (simp only: dropWhile_eq_Nil_conv)
  from True have b: "dropWhile isspace p = []" by (simp only: dropWhile_eq_Nil_conv)
  show ?thesis by (simp only: strip_def lstrip_def a b)
next
  case False
  then obtain x where "x \<in> set p" "\<not> isspace x" by blast
  then have "dropWhile isspace (p @ w) = dropWhile isspace p @ w"
    by (rule dropWhile_append1)
  then show ?thesis
    by (simp add: strip_def lstrip_def rstrip_blank_suffix[OF assms])
qed

lemma comma_not_space: "\<not> isspace CHR '',''"
  by (simp add: isspace_def)

lemma strip_parts_of_strip:
  "map strip (split_on CHR '','' (strip s)) = map strip (split_on CHR '','' s)"
proof -
  let ?w1 = "takeWhile isspace s"
  let ?t = "lstrip s"
  let ?w2 = "rev (takeWhile isspace (rev ?t))"
  let ?Y = "split_on CHR '','' (strip s)"
  let ?X = "split_on CHR '','' ?t"
  have w1: "\<And>x. x \<in> set ?w1 \<Longrightarrow> isspace x" by (auto dest: set_takeWhileD)
  have w2: "\<And>x. x \<in> set ?w2 \<Longrightarrow> isspace x" by (auto dest: set_takeWhileD)
  have s: "s = ?w1 @ ?t" by (simp add: lstrip_def)
  have t: "?t = strip s @ ?w2" by (simp add: strip_def rstrip_prefix)
  have Y: "?Y \<noteq> []" and X: "?X \<noteq> []" by (rule split_on_nonempty)+
  have "split_on CHR '','' (strip s @ ?w2) = butlast ?Y @ [last ?Y @ ?w2]"
    by (rule split_on_blank_suffix) (simp_all add: w2 comma_not_space)
  with t have "?X = butlast ?Y @ [last ?Y @ ?w2]" by simp
  moreover have "strip (last ?Y @ ?w2) = strip (last ?Y)"
    by (rule strip_blank_suffix) (simp add: w2)
  ultimately have "map strip ?X = map strip (butlast ?Y) @ [strip (last ?Y)]"
    by simp
  also have "\<dots> = map strip (butlast ?Y @ [last ?Y])" by simp
  also have "\<dots> = map strip ?Y" using Y by simp
  finally have XY: "map strip ?X = map strip ?Y" .
  have "split_on CHR '','' (?w1 @ ?t) = (?w1 @ hd ?X) # tl ?X"
    by (rule split_on_blank_prefix) (simp_all add: w1 comma_not_space)
  with s have "split_on CHR '','' s = (?w1 @ hd ?X) # tl ?X" by simp
  moreover have "strip (?w1 @ hd ?X) = strip (hd ?X)"
    by (rule strip_blank_prefix) (simp add: w1)
  ultimately have "map strip (split_on CHR '','' s) = strip (hd ?X) # map strip (tl ?X)"
    by simp
  also have "\<dots> = map strip ?X" using X by (cases ?X) auto
  finally show ?thesis using XY by simp
qed

lemma validate_dampness_type_rejects:
  "validate_dampness_type value = Inl ValueError \<longleftrightarrow>
     (\<exists>p\<in>set (split_on CHR '','' value). lower (strip p) \<notin> set dampness_allowed)"
  by (auto simp: validate_dampness_type_def Let_def list_ex_iff split_on_nonempty)

lemma dampness_chain_rejects:
  assumes "p \<in> set (split_on CHR '','' value)" "lower (strip p) \<notin> set dampness_allowed"
  shows "isl (and_then (validate_non_empty value) validate_dampness_type)"
proof (cases "validate_non_empty value")
  case (Inl e)
  then show ?thesis by (simp add: and_then_def)
next
  case (Inr cleaned)
  then have c: "cleaned = strip value"
    by (auto simp: validate_non_empty_def Let_def split: if_splits)
  from assms(1) have "strip p \<in> set (map strip (split_on CHR '','' (strip value)))"
    by (simp add: strip_parts_of_strip)
  then obtain q where q: "q \<in> set (split_on CHR '','' (strip value))" "strip q = strip p"
    by auto
  with assms(2) have "lower (strip q) \<notin> set dampness_allowed" by simp
  with q(1) have "validate_dampness_type (strip value) = Inl ValueError"
    unfolding validate_dampness_type_rejects by blast
  with Inr c show ?thesis by (simp add: and_then_def)
qed

lemma area_rejected:
  assumes "dict_get flds ''dampness_type'' = Some (JStr value)"
    "p \<in> set (split_on CHR '','' value)" "lower (strip p) \<notin> set dampness_allowed"
  shows "AreaObservation_validate (JDict flds) = Inl ValidationError"
proof -
  have "isl (default_str flds ''dampness_type'' ''Not Available''
          (\<lambda>s. and_then (validate_non_empty s) validate_dampness_type))"
    using assms(1) dampness_chain_rejects[OF assms(2,3)]
    by (simp add: default_str_def and_then_def)
  then show ?thesis by (simp add: AreaObservation_validate_def Let_def)
qed

lemma area_mapping_rejected:
  assumes "(area, a) \<in> set areas" "AreaObservation_validate a = Inl ValidationError"
  shows "area_mapping_validate (JDict areas) = Inl ValidationError"
proof -
  have m: "(area, AreaObservation_validate a)
      \<in> set (map (\<lambda>(name, a). (name, AreaObservation_validate a)) areas)"
    using assms(1) by force
  have "\<exists>x\<in>set (map (\<lambda>(name, a). (name, AreaObservation_validate a)) areas).
      (\<lambda>(name, r). isl r) x"
    by (rule bexI[OF _ m]) (simp add: assms(2))
  then have "list_ex (\<lambda>(name, r). isl r)
      (map (\<lambda>(name, a). (name, AreaObservation_validate a)) areas)"
    by (simp only: list_ex_iff)
  then show ?thesis by (simp add: area_mapping_validate_def Let_def)
qed

lemma report_rejected_by_areas:
  assumes "dict_get obj ''Area_Wise_Observations'' = Some v"
    "area_mapping_validate v = Inl ValidationError"
  shows "DDRReport_model_validate obj = Inl ValidationError"
  using assms by (simp add: DDRReport_model_validate_def Let_def required_field_def)

lemma report_rejected_by_dampness:
  assumes "dict_get obj ''Area_Wise_Observations'' = Some (JDict areas)"
    "(area, JDict flds) \<in> set areas"
    "dict_get flds ''dampness_type'' = Some (JStr value)"
    "p \<in> set (split_on CHR '','' value)" "lower (strip p) \<notin> set dampness_allowed"
  shows "DDRReport_model_validate obj = Inl ValidationError"
  by (rule report_rejected_by_areas[OF assms(1)], rule area_mapping_rejected[OF assms(2)],
      rule area_rejected[OF assms(3-5)])


lemma validate_non_empty_sentinel: "validate_non_empty ''Not Available'' = Inr ''Not Available''"
  by (simp add: validate_non_empty_def strip_sentinel lower_sentinel MISSING_VALUE_ALIASES_def)

lemma validate_overall_severity_sentinel:
  "validate_overall_severity ''Not Available'' = Inr ''Not Available''"
  by (simp add: validate_overall_severity_def strip_sentinel lower_sentinel)

lemma validate_confidence_level_sentinel:
  "validate_confidence_level ''Not Available'' = Inr ''Not Available''"
  by (simp add: validate_confidence_level_def strip_sentinel lower_sentinel)

lemma severity_default_valid:
  "SeverityAssessment_validate (JDict default_severity) =
     Inr \<lparr> overall_severity = ''Not Available'', reasoning = ''Not Available'',
           Confidence_Level = ''Not Available'', Confidence_Reasoning = ''Not Available'' \<rparr>"
  by (simp add: SeverityAssessment_validate_def default_severity_def required_str_def
      and_then_def validate_non_empty_sentinel validate_overall_severity_sentinel
      validate_confidence_level_sentinel)

lemma missing_default_valid:
  "str_list_validate (JList [JStr ''Not Available'']) = Inr [''Not Available'']"
  by (simp add: str_list_validate_def validate_missing_info_list_def strip_sentinel)

lemma strip_Hall: "strip ''Hall'' = ''Hall''"
  by (simp add: strip_def lstrip_def rstrip_def isspace_def)

lemma lower_Hall: "lower ''Hall'' = ''hall''"
  by (simp add: lower_def lower_char_def char_of_def bit_Suc_0_iff)

lemma sample_area_valid:
  assumes "and_then (validate_non_empty dampness) validate_dampness_type = Inr d"
  shows "area_mapping_validate
           (JDict [(''Hall'', JDict [(''inspection_observation'', JStr ''Not Available''),
                                    (''thermal_observation'', JStr ''Not Available''),
                                    (''merged_finding'', JStr ''Not Available''),
                                    (''dampness_type'', JStr dampness)])]) =
         Inr [(''Hall'', \<lparr> inspection_observation = ''Not Available'',
                 thermal_observation = ''Not Available'', merged_finding = ''Not Available'',
                 dampness_type = d, inspection_evidence_ref = ''Not Available'',
                 thermal_evidence_ref = ''Not Available'', conflict_note = ''Not Available'' \<rparr>)]"
proof -
  have a: "AreaObservation_validate
      (JDict [(''inspection_observation'', JStr ''Not Available''),
              (''thermal_observation'', JStr ''Not Available''),
              (''merged_finding'', JStr ''Not Available''),
              (''dampness_type'', JStr dampness)]) =
      Inr \<lparr> inspection_observation = ''Not Available'',
                 thermal_observation = ''Not Available'', merged_finding = ''Not Available'',
                 dampness_type = d, inspection_evidence_ref = ''Not Available'',
                 thermal_evidence_ref = ''Not Available'', conflict_note = ''Not Available'' \<rparr>"
    using assms
    by (simp add: AreaObservation_validate_def required_str_def default_str_def
        validate_non_empty_sentinel and_then_def)
  show ?thesis
    unfolding area_mapping_validate_def json.case Let_def list.map prod.case a
    by (simp add: validate_area_observations_def bad_area_key_def strip_Hall lower_Hall)
qed

lemma sample_report_valid:
  assumes "and_then (validate_non_empty dampness) validate_dampness_type = Inr d"
  shows "\<not> isl (DDRReport_model_validate (sample_report dampness))"
  unfolding DDRReport_model_validate_def sample_report_def Let_def
  by (simp add: required_str_def required_field_def and_then_def validate_non_empty_sentinel
      severity_default_valid missing_default_valid sample_area_valid[OF assms])

lemma strip_two_labels:
  "strip ''Rising Damp, Penetrating Damp (Probable)'' = ''Rising Damp, Penetrating Damp (Probable)''"
  by (rule trimmed_strip_id) (simp add: trimmed_def isspace_def)

lemma lower_two_labels:
  "lower ''Rising Damp, Penetrating Damp (Probable)'' = ''rising damp, penetrating damp (probable)''"
  by (simp add: lower_def lower_char_def char_of_def bit_Suc_0_iff)

lemma split_two_labels:
  "split_on CHR '','' ''Rising Damp, Penetrating Damp (Probable)''
     = [''Rising Damp'', '' Penetrating Damp (Probable)'']"
  by simp

lemma strip_label1: "strip ''Rising Damp'' = ''Rising Damp''"
  by (rule trimmed_strip_id) (simp add: trimmed_def isspace_def)

lemma strip_label2: "strip '' Penetrating Damp (Probable)'' = ''Penetrating Damp (Probable)''"
  by (simp add: strip_def lstrip_def rstrip_def isspace_def)

lemma lower_label1: "lower ''Rising Damp'' = ''rising damp''"
  by (simp add: lower_def lower_char_def char_of_def bit_Suc_0_iff)

lemma lower_label2: "lower ''Penetrating Damp (Probable)'' = ''penetrating damp (probable)''"
  by (simp add: lower_def lower_char_def char_of_def bit_Suc_0_iff)

lemma two_labels_valid:
  "validate_dampness_type ''Rising Damp, Penetrating Damp (Probable)''
     = Inr ''Rising Damp, Penetrating Damp (Probable)''"
  unfolding validate_dampness_type_def split_two_labels Let_def
  by (simp add: strip_label1 strip_label2 lower_label1 lower_label2 dampness_allowed_def)

lemma two_labels_chain:
  "and_then (validate_non_empty ''Rising Damp, Penetrating Damp (Probable)'')
      validate_dampness_type = Inr ''Rising Damp, Penetrating Damp (Probable)''"
proof -
  have "validate_non_empty ''Rising Damp, Penetrating Damp (Probable)''
      = Inr ''Rising Damp, Penetrating Damp (Probable)''"
    unfolding validate_non_empty_def Let_def strip_two_labels lower_two_labels
    by (simp add: MISSING_VALUE_ALIASES_def)
  then show ?thesis by (simp add: and_then_def two_labels_valid)
qed

lemma strip_Mold: "strip ''Mold'' = ''Mold''"
  by (simp add: strip_def lstrip_def rstrip_def isspace_def)

lemma lower_Mold: "lower ''Mold'' = ''mold''"
  by (simp add: lower_def lower_char_def char_of_def bit_Suc_0_iff)

lemma Mold_not_allowed: "lower (strip ''Mold'') \<notin> set dampness_allowed"
  by (simp add: strip_Mold lower_Mold dampness_allowed_def)

text \<open>
  Claim C7.  The components of a \<open>dampness_type\<close> are the parts between its commas,
  each trimmed and compared up to case.  Strict validation rejects every document that
  has an area whose \<open>dampness_type\<close> has a component outside the closed set (the three
  damp labels, each with or without \<open>(Probable)\<close>, and the sentinel).  In particular a
  document with the \<open>dampness_type\<close> \<open>"Mold"\<close> is rejected, the field validator accepts
  \<open>"Rising Damp, Penetrating Damp (Probable)"\<close>, and a document with that
  \<open>dampness_type\<close> and otherwise valid fields is accepted.
\<close>

theorem validation_enforces_dampness_vocabulary:
  "(dict_get obj ''Area_Wise_Observations'' = Some (JDict areas)
      \<and> (area, JDict flds) \<in> set areas
      \<and> dict_get flds ''dampness_type'' = Some (JStr value)
      \<and> p \<in> set (split_on CHR '','' value)
      \<and> lower (strip p) \<notin> set dampness_allowed
    \<longrightarrow> DDRReport_model_validate obj = Inl ValidationError)
   \<and> DDRReport_model_validate (sample_report ''Mold'') = Inl ValidationError
   \<and> validate_dampness_type ''Rising Damp, Penetrating Damp (Probable)''
       = Inr ''Rising Damp, Penetrating Damp (Probable)''
   \<and> \<not> isl (DDRReport_model_validate (sample_report ''Rising Damp, Penetrating Damp (Probable)''))"
proof (intro conjI impI)
  assume "dict_get obj ''Area_Wise_Observations'' = Some (JDict areas)
      \<and> (area, JDict flds) \<in> set areas
      \<and> dict_get flds ''dampness_type'' = Some (JStr value)
      \<and> p \<in> set (split_on CHR '','' value)
      \<and> lower (strip p) \<notin> set dampness_allowed"
  then show "DDRReport_model_validate obj = Inl ValidationError"
    using report_rejected_by_dampness by blast
next
  let ?flds = "[(''inspection_observation'', JStr ''Not Available''),
            (''thermal_observation'', JStr ''Not Available''),
            (''merged_finding'', JStr ''Not Available''),
            (''dampness_type'', JStr ''Mold'')]"
  have 1: "dict_get (sample_report ''Mold'') ''Area_Wise_Observations''
      = Some (JDict [(''Hall'', JDict ?flds)])"
    by (simp add: sample_report_def)
  have 2: "(''Hall'', JDict ?flds) \<in> set [(''Hall'', JDict ?flds)]" by simp
  have 3: "dict_get ?flds ''dampness_type'' = Some (JStr ''Mold'')" by simp
  have 4: "''Mold'' \<in> set (split_on CHR '','' ''Mold'')" by simp
  show "DDRReport_model_validate (sample_report ''Mold'') = Inl ValidationError"
    by (rule report_rejected_by_dampness[OF 1 2 3 4 Mold_not_allowed])
next
  show "validate_dampness_type ''Rising Damp, Penetrating Damp (Probable)''
       = Inr ''Rising Damp, Penetrating Damp (Probable)''"
    by (rule two_labels_valid)
next
  show "\<not> isl (DDRReport_model_validate (sample_report ''Rising Damp, Penetrating Damp (Probable)''))"
    by (rule sample_report_valid[OF two_labels_chain])
qed

theorem validation_enforces_dampness_vocabulary_witness:
  "''old'' \<in> set (split_on CHR '','' ''Rising Damp,old'')
   \<and> lower (strip ''old'') \<notin> set dampness_allowed
   \<and> DDRReport_model_validate (sample_report ''Rising Damp,old'' :: int dict)
       = Inl ValidationError"
proof -
  have 1: "dict_get (sample_report ''Rising Damp,old'' :: int dict) ''Area_Wise_Observations''
     = Some (JDict [(''Hall'', JDict [(''inspection_observation'', JStr ''Not Available''),
                                  (''thermal_observation'', JStr ''Not Available''),
                                  (''merged_finding'', JStr ''Not Available''),
                                  (''dampness_type'', JStr ''Rising Damp,old'')])])"
    by (simp add: sample_report_def)
  have 2: "''old'' \<in> set (split_on CHR '','' ''Rising Damp,old'')" by simp
  have "strip ''old'' = ''old''" by (simp add: strip_def lstrip_def rstrip_def isspace_def)
  moreover have "lower ''old'' = ''old''"
    by (simp add: lower_def lower_char_def char_of_def bit_Suc_0_iff)
  ultimately have 3: "lower (strip ''old'') \<notin> set dampness_allowed"
    by (simp add: dampness_allowed_def)
  note t = validation_enforces_dampness_vocabulary[of "sample_report ''Rising Damp,old'' :: int dict"
      "[(''Hall'', JDict [(''inspection_observation'', JStr ''Not Available''),
                                  (''thermal_observation'', JStr ''Not Available''),
                                  (''merged_finding'', JStr ''Not Available''),
                                  (''dampness_type'', JStr ''Rising Damp,old'')])]"
      "''Hall''" "[(''inspection_observation'', JStr ''Not Available''),
                                  (''thermal_observation'', JStr ''Not Available''),
                                  (''merged_finding'', JStr ''Not Available''),
                                  (''dampness_type'', JStr ''Rising Damp,old'')]"
      "''Rising Damp,old''" "''old''"]
  have 5: "(''Hall'', JDict [(''inspection_observation'', JStr ''Not Available''),
                                  (''thermal_observation'', JStr ''Not Available''),
                                  (''merged_finding'', JStr ''Not Available''),
                                  (''dampness_type'', JStr ''Rising Damp,old'')])
         \<in> set [(''Hall'', JDict [(''inspection_observation'', JStr ''Not Available''),
                                  (''thermal_observation'', JStr ''Not Available''),
                                  (''merged_finding'', JStr ''Not Available''),
                                  (''dampness_type'', JStr ''Rising Damp,old'' :: int json)])]"
    "dict_get [(''inspection_observation'', JStr ''Not Available''),
                                  (''thermal_observation'', JStr ''Not Available''),
                                  (''merged_finding'', JStr ''Not Available''),
                                  (''dampness_type'', JStr ''Rising Damp,old'' :: int json)]
       ''dampness_type'' = Some (JStr ''Rising Damp,old'')"
    by simp_all
  have 4: "DDRReport_model_validate (sample_report ''Rising Damp,old'' :: int dict)
       = Inl ValidationError"
    using t 1 2 3 5 by blast
  from 2 3 4 show ?thesis by blast
qed


end
